theory Spec2Isabelle
  imports Main "HOL-Library.Word" "HOL-Library.Sublist"
begin

unbundle bit_operations_syntax

section \<open>Go strings\<close>

text \<open>
  A Go string is a sequence of bytes, and so is a HOL \<open>string\<close>. The functions of
  package \<open>strings\<close> that \<open>pkg/dns/resolver.go\<close> calls are written out here after
  the Go standard library: \<open>HasSuffix\<close>, \<open>TrimSuffix\<close>, \<open>Index\<close>, \<open>Count\<close>,
  \<open>Split\<close>, \<open>SplitN\<close> (both through \<open>genSplit\<close>), \<open>Join\<close>, \<open>Contains\<close> and
  \<open>TrimSpace\<close>.
\<close>

definition HasSuffix :: "string \<Rightarrow> string \<Rightarrow> bool" where
  "HasSuffix s suf \<longleftrightarrow>
     length suf \<le> length s \<and> drop (length s - length suf) s = suf"

definition TrimSuffix :: "string \<Rightarrow> string \<Rightarrow> string" where
  "TrimSuffix s suf = (if HasSuffix s suf then take (length s - length suf) s else s)"

text \<open>\<open>Index s sep\<close>: the position of the first occurrence of \<open>sep\<close>; Go's \<open>-1\<close> is \<open>None\<close>.\<close>

fun Index :: "string \<Rightarrow> string \<Rightarrow> nat option" where
  "Index [] sep = (if sep = [] then Some 0 else None)"
| "Index (c # t) sep =
     (if take (length sep) (c # t) = sep then Some 0 else map_option Suc (Index t sep))"

definition Contains :: "string \<Rightarrow> string \<Rightarrow> bool" where
  "Contains s sub \<longleftrightarrow> Index s sub \<noteq> None"

text \<open>
  \<open>Count s sep\<close>: the number of non-overlapping occurrences. For the empty separator
  Go answers the number of UTF-8 sequences plus one; this program never counts the empty
  separator, and the model answers the number of bytes plus one there.
\<close>

function Count :: "string \<Rightarrow> string \<Rightarrow> nat" where
  "Count s sep =
     (if sep = [] then length s + 1
      else case Index s sep of
             None \<Rightarrow> 0
           | Some i \<Rightarrow> Suc (Count (drop (i + length sep) s) sep))"
  by pat_completeness auto
termination
proof (relation "measure (\<lambda>(s, sep). length s)")
  show "wf (measure (\<lambda>(s, sep). length s))" by simp
next
  fix s sep :: string and i :: nat
  assume "sep \<noteq> []" and "Index s sep = Some i"
  then have "s \<noteq> []" by (cases s) auto
  with \<open>sep \<noteq> []\<close>
  show "((drop (i + length sep) s, sep), (s, sep)) \<in> measure (\<lambda>(s, sep). length s)"
    by simp
qed

declare Count.simps [simp del]

text \<open>
  The loop of \<open>genSplit\<close>: at most \<open>k\<close> cuts, each at the leftmost separator, and the
  rest of the string as the last element.
\<close>

fun split_loop :: "nat \<Rightarrow> string \<Rightarrow> string \<Rightarrow> string list" where
  "split_loop 0 s sep = [s]"
| "split_loop (Suc k) s sep =
     (case Index s sep of
        None \<Rightarrow> [s]
      | Some m \<Rightarrow> take m s # split_loop k (drop (m + length sep) s) sep)"

text \<open>
  \<open>genSplit s sep 0 n\<close> of the Go library. With the empty separator Go cuts the string
  into UTF-8 sequences (\<open>explode\<close>); the model cuts it into bytes, which is the same on
  ASCII, and the program only ever splits at \<open>"."\<close> and \<open>" | "\<close>.
\<close>

definition genSplit :: "string \<Rightarrow> string \<Rightarrow> int \<Rightarrow> string list" where
  "genSplit s sep n =
     (if n = 0 then []
      else if sep = [] then
        (let l = (if n < 0 \<or> n > int (length s) then length s else nat n)
         in if l = 0 then []
            else map (\<lambda>c. [c]) (take (l - 1) s) @ [drop (l - 1) s])
      else
        (let n1 = (if n < 0 then int (Count s sep) + 1 else n);
             n2 = (if n1 > int (length s) + 1 then int (length s) + 1 else n1)
         in split_loop (nat (n2 - 1)) s sep))"

definition Split :: "string \<Rightarrow> string \<Rightarrow> string list" where
  "Split s sep = genSplit s sep (-1)"

definition SplitN :: "string \<Rightarrow> string \<Rightarrow> int \<Rightarrow> string list" where
  "SplitN s sep n = genSplit s sep n"

fun Join :: "string list \<Rightarrow> string \<Rightarrow> string" where
  "Join [] sep = []"
| "Join [x] sep = x"
| "Join (x # y # ys) sep = x @ sep @ Join (y # ys) sep"

text \<open>
  \<open>TrimSpace\<close> on ASCII: tab, line feed, vertical tab, form feed, carriage return and
  space are cut from both ends. Go cuts the multi-byte encodings of the other Unicode
  white space too; the model takes every byte from 128 on as not a space.
\<close>

definition asciiSpace :: "char \<Rightarrow> bool" where
  "asciiSpace c \<longleftrightarrow> c \<in> set [CHR 0x09, CHR 0x0A, CHR 0x0B, CHR 0x0C, CHR 0x0D, CHR '' '']"

definition TrimSpace :: "string \<Rightarrow> string" where
  "TrimSpace s = rev (dropWhile asciiSpace (rev (dropWhile asciiSpace s)))"

section \<open>The DNS library, as the resolver sees it\<close>

text \<open>
  Package \<open>github.com/miekg/dns\<close> is not part of the repository. The model keeps what
  the resolver reads of it: a resource record is one of the Go record types the code
  asserts (\<open>*dns.A\<close>, \<open>*dns.AAAA\<close>, \<open>*dns.NS\<close>, \<open>*dns.CNAME\<close>, \<open>*dns.MX\<close>,
  \<open>*dns.TXT\<close>) or any other one; a message has a response code and three sections.
\<close>

type_synonym byte = "8 word"

type_synonym IP = "byte list"

record RR_Header =
  Name :: string
  Rrtype :: "16 word"
  Class :: "16 word"
  Ttl :: "32 word"

datatype RR =
    A RR_Header IP
  | AAAA RR_Header IP
  | NS RR_Header string
  | CNAME RR_Header string
  | MX RR_Header "16 word" string
  | TXT RR_Header "string list"
  | OtherRR RR_Header

record Msg =
  Rcode :: int
  Answer :: "RR list"
  Ns :: "RR list"
  Extra :: "RR list"

record Question =
  qname :: string
  qtype :: "16 word"
  RecursionDesired :: bool

definition TypeA :: "16 word" where "TypeA = 1"
definition TypeNS :: "16 word" where "TypeNS = 2"
definition TypeCNAME :: "16 word" where "TypeCNAME = 5"
definition TypeMX :: "16 word" where "TypeMX = 15"
definition TypeTXT :: "16 word" where "TypeTXT = 16"
definition TypeAAAA :: "16 word" where "TypeAAAA = 28"

definition RcodeNameError :: int where "RcodeNameError = 3"

text \<open>
  \<open>dns.IsFqdn\<close> and \<open>dns.Fqdn\<close>: a name is fully qualified when it ends in a dot that
  is not escaped, that is, a dot after an even number of backslashes. The backslashes
  are counted on bytes, which is what the library does on an ASCII name.
\<close>

definition IsFqdn :: "string \<Rightarrow> bool" where
  "IsFqdn s \<longleftrightarrow>
     (if s = [] \<or> last s \<noteq> CHR ''.'' then False
      else let t = butlast s
           in if t = [] \<or> last t \<noteq> CHR 0x5C then True
              else length (takeWhile (\<lambda>c. c = CHR 0x5C) (rev t)) mod 2 = 0)"

definition Fqdn :: "string \<Rightarrow> string" where
  "Fqdn s = (if IsFqdn s then s else s @ ''.'')"

text \<open>
  The outside world. \<open>Exchange\<close> is \<open>r.client.Exchange(m, server)\<close>: one question sent
  to one server, answered by a message or by a transport error (\<open>None\<close>).
  \<open>LookupHost\<close> is \<open>net.LookupHost\<close>, whose error the code drops, so only the list of
  addresses is kept. \<open>ParseIP\<close> is \<open>net.ParseIP\<close>, with \<open>None\<close> for Go's \<open>nil\<close>.
  Network calls take the state of the world and give back the next one, so two equal
  questions may get two different answers.
\<close>

record 'w Net =
  Exchange :: "'w \<Rightarrow> Question \<Rightarrow> string \<Rightarrow> Msg option \<times> 'w"
  LookupHost :: "'w \<Rightarrow> string \<Rightarrow> string list \<times> 'w"
  ParseIP :: "string \<Rightarrow> IP option"

definition resolverAddr :: string where
  "resolverAddr = ''8.8.8.8:53''"

section \<open>Rendering numbers and addresses\<close>

text \<open>
  \<open>fmt.Sprintf("%d", n)\<close> and \<open>fmt.Sprintf("%x", n)\<close> on an unsigned number: its
  decimal, and its lower-case hexadecimal digits, without leading zeros.
\<close>

definition digit_char :: "nat \<Rightarrow> char" where
  "digit_char n = ''0123456789abcdef'' ! n"

function fmt_base :: "nat \<Rightarrow> nat \<Rightarrow> string" where
  "fmt_base b n =
     (if b < 2 \<or> n < b then [digit_char n]
      else fmt_base b (n div b) @ [digit_char (n mod b)])"
  by pat_completeness auto
termination
  by (relation "measure (\<lambda>(b, n). n)") auto

declare fmt_base.simps [simp del]

definition fmt_d :: "nat \<Rightarrow> string" where
  "fmt_d n = fmt_base 10 n"

definition fmt_x :: "nat \<Rightarrow> string" where
  "fmt_x n = fmt_base 16 n"

text \<open>
  \<open>net.IP\<close> is a byte slice. \<open>To4\<close> and \<open>To16\<close> convert between the 4-byte and the
  16-byte form (\<open>None\<close> is Go's \<open>nil\<close>), and \<open>IP.String\<close> renders an address: dotted
  decimal for an IPv4 address, the text of RFC 5952 for an IPv6 address (the leftmost
  longest run of two or more zero groups written \<open>::\<close>), \<open><nil>\<close> for the empty slice and
  \<open>?\<close> with the bytes in hexadecimal for any other length.
\<close>

definition v4InV6Prefix :: IP where
  "v4InV6Prefix = [0, 0, 0, 0, 0, 0, 0, 0, 0, 0, 0xff, 0xff]"

definition To4 :: "IP \<Rightarrow> IP option" where
  "To4 ip =
     (if length ip = 4 then Some ip
      else if length ip = 16 \<and> take 12 ip = v4InV6Prefix then Some (drop 12 ip)
      else None)"

definition To16 :: "IP \<Rightarrow> IP option" where
  "To16 ip =
     (if length ip = 4 then Some (v4InV6Prefix @ ip)
      else if length ip = 16 then Some ip
      else None)"

definition hexString :: "IP \<Rightarrow> string" where
  "hexString ip =
     concat (map (\<lambda>b. [digit_char (unat (drop_bit 4 b)), digit_char (unat (b AND 0x0f))]) ip)"

definition string4 :: "IP \<Rightarrow> string" where
  "string4 ip = Join (map (\<lambda>b. fmt_d (unat b)) ip) ''.''"

fun v6u16 :: "IP \<Rightarrow> nat list" where
  "v6u16 (hi # lo # rest) = (unat hi * 256 + unat lo) # v6u16 rest"
| "v6u16 _ = []"

definition zero_run :: "nat list \<Rightarrow> nat \<times> nat" where
  "zero_run gs =
     foldl (\<lambda>(zeroStart, zeroEnd) i.
              let l = length (takeWhile (\<lambda>g. g = 0) (drop i gs))
              in if 2 \<le> l \<and> zeroEnd - zeroStart < l then (i, i + l)
                 else (zeroStart, zeroEnd))
           (255, 255) [0..<8]"

definition string6 :: "IP \<Rightarrow> string" where
  "string6 ip =
     (let gs = v6u16 ip; (zeroStart, zeroEnd) = zero_run gs
      in if zeroStart < 8
         then Join (map fmt_x (take zeroStart gs)) '':'' @ ''::''
              @ Join (map fmt_x (drop zeroEnd gs)) '':''
         else Join (map fmt_x gs) '':'')"

definition IP_String :: "IP \<Rightarrow> string" where
  "IP_String ip =
     (if length ip = 0 then ''<nil>''
      else if length ip \<noteq> 4 \<and> length ip \<noteq> 16 then ''?'' @ hexString ip
      else case To4 ip of
             Some p4 \<Rightarrow> string4 p4
           | None \<Rightarrow> string6 ip)"

section \<open>Existence check\<close>

text \<open>
  \<open>Resolver.Exists\<close>: one NS question with recursion desired to \<open>8.8.8.8:53\<close>; a
  transport error counts as existence.
\<close>

definition Exists :: "'w Net \<Rightarrow> 'w \<Rightarrow> string \<Rightarrow> bool \<times> 'w" where
  "Exists net w domain =
     (let domain = Fqdn domain;
          m = \<lparr>qname = domain, qtype = TypeNS, RecursionDesired = True\<rparr>
      in case Exchange net w m resolverAddr of
           (None, w') \<Rightarrow> (True, w')
         | (Some resp, w') \<Rightarrow> (Rcode resp \<noteq> RcodeNameError, w'))"

section \<open>Delegation trace\<close>

record TraceStep =
  Zone :: string
  Server :: string

definition rootServers :: "string list" where
  "rootServers = [''198.41.0.4'', ''199.9.14.201'', ''192.33.4.12'']"

text \<open>\<open>Resolver.getRootServerName\<close>: the static map from address to name.\<close>

definition rootNames :: "string \<rightharpoonup> string" where
  "rootNames = map_of
     [(''198.41.0.4'', ''a.root-servers.net''),
      (''199.9.14.201'', ''b.root-servers.net''),
      (''192.33.4.12'', ''c.root-servers.net'')]"

definition getRootServerName :: "string \<Rightarrow> string" where
  "getRootServerName ip = (case rootNames ip of Some name \<Rightarrow> name | None \<Rightarrow> ip)"

text \<open>
  The zones of \<open>Trace\<close>: the root, then for \<open>i\<close> from the last part down to the first
  the parts from \<open>i\<close> on, joined by dots, with a final dot.
\<close>

definition domain_parts :: "string \<Rightarrow> string list" where
  "domain_parts domain = Split (TrimSuffix (Fqdn domain) ''.'') ''.''"

definition trace_zones :: "string list \<Rightarrow> string list" where
  "trace_zones parts =
     ''.'' # map (\<lambda>i. Join (drop i parts) ''.'' @ ''.'') (rev [0..<length parts])"

text \<open>
  The section searched for NS records: the answer section when it holds any record,
  else the authority section when that holds any, else nothing.
\<close>

definition nsRecords :: "Msg \<Rightarrow> RR list" where
  "nsRecords resp =
     (if length (Answer resp) > 0 then Answer resp
      else if length (Ns resp) > 0 then Ns resp
      else [])"

text \<open>
  The scan of the additional section for glue: the first A record whose owner name is
  the NS target sets \<open>nextServer\<close> and ends the scan.
\<close>

fun glue_scan :: "string \<Rightarrow> RR list \<Rightarrow> string \<Rightarrow> string" where
  "glue_scan ns [] nextServer = nextServer"
| "glue_scan ns (A hdr a # extras) nextServer =
     (if Name hdr = ns then IP_String a else glue_scan ns extras nextServer)"
| "glue_scan ns (_ # extras) nextServer = glue_scan ns extras nextServer"

text \<open>
  What the loop over the chosen section does at one NS record with target \<open>ns\<close>: it sets
  \<open>serverName\<close>, looks for glue, and resolves the name through the system when
  \<open>nextServer\<close> is still empty. The state is \<open>(nextServer, serverName, world)\<close>.
\<close>

definition ns_step ::
  "'w Net \<Rightarrow> RR list \<Rightarrow> string \<Rightarrow> string \<times> string \<times> 'w \<Rightarrow> string \<times> string \<times> 'w" where
  "ns_step net extras ns st =
     (case st of (nextServer, _, w) \<Rightarrow>
        let serverName = TrimSuffix ns ''.'';
            nextServer = glue_scan ns extras nextServer
        in if nextServer = []
           then (case LookupHost net w serverName of
                   (ips, w') \<Rightarrow>
                     (if length ips > 0 then hd ips else nextServer, serverName, w'))
           else (nextServer, serverName, w))"

text \<open>The loop over the chosen section; it ends at the first NS record that gave an address.\<close>

fun ns_loop ::
  "'w Net \<Rightarrow> RR list \<Rightarrow> RR list \<Rightarrow> string \<times> string \<times> 'w \<Rightarrow> string \<times> string \<times> 'w" where
  "ns_loop net extras [] st = st"
| "ns_loop net extras (NS hdr ns # rrs) st =
     (let st' = ns_step net extras ns st
      in if fst st' \<noteq> [] then st' else ns_loop net extras rrs st')"
| "ns_loop net extras (_ # rrs) st = ns_loop net extras rrs st"

text \<open>
  One pass of the loop over the zones, for a zone other than the root. The state is
  \<open>(steps, currentServer, world)\<close>.
\<close>

definition trace_zone ::
  "'w Net \<Rightarrow> string \<Rightarrow> TraceStep list \<times> string \<times> 'w \<Rightarrow> TraceStep list \<times> string \<times> 'w" where
  "trace_zone net zone st =
     (case st of (steps, currentServer, w) \<Rightarrow>
        (let m = \<lparr>qname = zone, qtype = TypeNS, RecursionDesired = False\<rparr>
         in (case Exchange net w m (currentServer @ '':53'') of
               (None, w1) \<Rightarrow> (steps, currentServer, w1)
             | (Some resp, w1) \<Rightarrow>
                 (case ns_loop net (Extra resp) (nsRecords resp) ([], [], w1) of
                    (nextServer, serverName, w2) \<Rightarrow>
                      (if serverName \<noteq> []
                       then steps @ [\<lparr>Zone = zone, Server = serverName\<rparr>] else steps,
                       if nextServer \<noteq> [] then nextServer else currentServer,
                       w2)))))"

text \<open>The loop over the zones, with the index \<open>i\<close> of the zone at the head of the list.\<close>

fun trace_loop ::
  "'w Net \<Rightarrow> nat \<Rightarrow> string list \<Rightarrow> TraceStep list \<times> string \<times> 'w
     \<Rightarrow> TraceStep list \<times> string \<times> 'w" where
  "trace_loop net i [] st = st"
| "trace_loop net i (zone # zones) st =
     (if i = 0
      then (case st of (steps, currentServer, w) \<Rightarrow>
              trace_loop net (Suc i) zones
                (steps @ [\<lparr>Zone = ''.'', Server = getRootServerName currentServer\<rparr>],
                 currentServer, w))
      else trace_loop net (Suc i) zones (trace_zone net zone st))"

text \<open>
  \<open>Resolver.Trace\<close>. Its error result is always \<open>nil\<close>, so the model returns the steps
  and the world.
\<close>

definition Trace :: "'w Net \<Rightarrow> 'w \<Rightarrow> string \<Rightarrow> TraceStep list \<times> 'w" where
  "Trace net w domain =
     (let currentServer = rootServers ! 0;
          zones = trace_zones (domain_parts domain)
      in case trace_loop net 0 zones ([], currentServer, w) of
           (steps, _, w') \<Rightarrow> (steps, w'))"

section \<open>ASN attribution\<close>

record ASNInfo =
  ASN :: string
  Org :: string

text \<open>
  The nibbles of an IPv6 address as \<open>LookupASN\<close> collects them: for \<open>i\<close> from the last
  byte down to the first, the low four bits of byte \<open>i\<close>, then its high four bits, each
  printed with \<open>%x\<close>.
\<close>

definition asn_nibbles :: "IP \<Rightarrow> string list" where
  "asn_nibbles full =
     foldl (\<lambda>nibbles i.
              nibbles @ [fmt_x (unat ((full ! i) AND 0x0f))]
                      @ [fmt_x (unat (drop_bit 4 (full ! i)))])
           [] (rev [0..<length full])"

text \<open>
  The first part of \<open>LookupASN\<close>: the name of the origin query, or \<open>None\<close> where the
  function returns \<open>nil\<close> before any query is sent.
\<close>

definition asn_query :: "'w Net \<Rightarrow> string \<Rightarrow> string option" where
  "asn_query net ip =
     (if Contains ip '':''
      then (case ParseIP net ip of
              None \<Rightarrow> None
            | Some addr \<Rightarrow>
                (case To16 addr of
                   None \<Rightarrow> None
                 | Some full \<Rightarrow>
                     Some (Join (asn_nibbles full) ''.'' @ ''.origin6.asn.cymru.com.'')))
      else (let parts = Split ip ''.''
            in if length parts \<noteq> 4 then None
               else Some (parts ! 3 @ ''.'' @ parts ! 2 @ ''.'' @ parts ! 1 @ ''.'' @ parts ! 0
                          @ ''.origin.asn.cymru.com.'')))"

text \<open>\<open>Resolver.lookupASName\<close>: the second query, for the name of the AS.\<close>

definition lookupASName :: "'w Net \<Rightarrow> 'w \<Rightarrow> string \<Rightarrow> ASNInfo \<times> 'w" where
  "lookupASName net w asn =
     (let nameQuery = ''AS'' @ asn @ ''.asn.cymru.com.'';
          m = \<lparr>qname = nameQuery, qtype = TypeTXT, RecursionDesired = True\<rparr>
      in case Exchange net w m resolverAddr of
           (None, w') \<Rightarrow> (\<lparr>ASN = ''AS'' @ asn, Org = []\<rparr>, w')
         | (Some resp, w') \<Rightarrow>
             (case Answer resp of
                [] \<Rightarrow> (\<lparr>ASN = ''AS'' @ asn, Org = []\<rparr>, w')
              | TXT hdr txt # _ \<Rightarrow>
                  (case txt of
                     [] \<Rightarrow> (\<lparr>ASN = ''AS'' @ asn, Org = []\<rparr>, w')
                   | txt0 # _ \<Rightarrow>
                       (let nameFields = SplitN txt0 '' | '' 5;
                            org = (if length nameFields \<ge> 5
                                   then TrimSpace (nameFields ! 4) else [])
                        in (\<lparr>ASN = ''AS'' @ asn, Org = org\<rparr>, w')))
              | _ # _ \<Rightarrow> (\<lparr>ASN = ''AS'' @ asn, Org = []\<rparr>, w')))"

text \<open>\<open>Resolver.LookupASN\<close>; \<open>None\<close> is the \<open>nil\<close> result.\<close>

definition LookupASN :: "'w Net \<Rightarrow> 'w \<Rightarrow> string \<Rightarrow> ASNInfo option \<times> 'w" where
  "LookupASN net w ip =
     (case asn_query net ip of
        None \<Rightarrow> (None, w)
      | Some query \<Rightarrow>
          (let m = \<lparr>qname = query, qtype = TypeTXT, RecursionDesired = True\<rparr>
           in case Exchange net w m resolverAddr of
                (None, w') \<Rightarrow> (None, w')
              | (Some resp, w') \<Rightarrow>
                  (case Answer resp of
                     [] \<Rightarrow> (None, w')
                   | TXT hdr txt # _ \<Rightarrow>
                       (case txt of
                          [] \<Rightarrow> (None, w')
                        | txt0 # _ \<Rightarrow>
                            (let fields = SplitN txt0 '' | '' 5
                             in if length fields < 1 then (None, w')
                                else (let asn = TrimSpace (fields ! 0)
                                      in case lookupASName net w' asn of
                                           (info, w'') \<Rightarrow> (Some info, w''))))
                   | _ # _ \<Rightarrow> (None, w'))))"

section \<open>Record aggregation\<close>

record Records =
  Records_A :: "string list"
  Records_AAAA :: "string list"
  Records_MX :: "string list"
  Records_TXT :: "string list"
  Records_NS :: "string list"
  Records_CNAME :: "string list"

text \<open>
  The loop of \<open>queryRecords\<close> over the answer section: a type switch with cases for
  A, AAAA and CNAME records. The type asked for plays no part in it.
\<close>

fun collect_records :: "RR list \<Rightarrow> string list \<Rightarrow> string list" where
  "collect_records [] results = results"
| "collect_records (A hdr a # answers) results =
     collect_records answers (results @ [IP_String a])"
| "collect_records (AAAA hdr a # answers) results =
     collect_records answers (results @ [IP_String a])"
| "collect_records (CNAME hdr target # answers) results =
     collect_records answers (results @ [TrimSuffix target ''.''])"
| "collect_records (_ # answers) results = collect_records answers results"

definition queryRecords :: "'w Net \<Rightarrow> 'w \<Rightarrow> string \<Rightarrow> 16 word \<Rightarrow> string list \<times> 'w" where
  "queryRecords net w domain qt =
     (let m = \<lparr>qname = domain, qtype = qt, RecursionDesired = True\<rparr>
      in case Exchange net w m resolverAddr of
           (None, w') \<Rightarrow> ([], w')
         | (Some resp, w') \<Rightarrow> (collect_records (Answer resp) [], w'))"

fun collect_mx :: "RR list \<Rightarrow> string list \<Rightarrow> string list" where
  "collect_mx [] results = results"
| "collect_mx (MX hdr preference mx # answers) results =
     collect_mx answers (results @ [fmt_d (unat preference) @ '' '' @ TrimSuffix mx ''.''])"
| "collect_mx (_ # answers) results = collect_mx answers results"

definition queryMX :: "'w Net \<Rightarrow> 'w \<Rightarrow> string \<Rightarrow> string list \<times> 'w" where
  "queryMX net w domain =
     (let m = \<lparr>qname = domain, qtype = TypeMX, RecursionDesired = True\<rparr>
      in case Exchange net w m resolverAddr of
           (None, w') \<Rightarrow> ([], w')
         | (Some resp, w') \<Rightarrow> (collect_mx (Answer resp) [], w'))"

text \<open>
  The value \<open>queryTXT\<close> keeps of one TXT record: its strings joined, cut to 57 bytes and
  three dots when the whole is longer than 60 bytes.
\<close>

definition txt_value :: "string list \<Rightarrow> string" where
  "txt_value txt =
     (let v = Join txt []
      in if length v > 60 then take 57 v @ ''...'' else v)"

fun collect_txt :: "RR list \<Rightarrow> string list \<Rightarrow> string list" where
  "collect_txt [] results = results"
| "collect_txt (TXT hdr txt # answers) results =
     collect_txt answers (results @ [txt_value txt])"
| "collect_txt (_ # answers) results = collect_txt answers results"

definition queryTXT :: "'w Net \<Rightarrow> 'w \<Rightarrow> string \<Rightarrow> string list \<times> 'w" where
  "queryTXT net w domain =
     (let m = \<lparr>qname = domain, qtype = TypeTXT, RecursionDesired = True\<rparr>
      in case Exchange net w m resolverAddr of
           (None, w') \<Rightarrow> ([], w')
         | (Some resp, w') \<Rightarrow> (collect_txt (Answer resp) [], w'))"

text \<open>
  \<open>Resolver.GetRecords\<close>: five queries one after the other, A, AAAA, MX, TXT, CNAME.
  The field NS is never set, and the error result is always \<open>nil\<close>.
\<close>

definition GetRecords :: "'w Net \<Rightarrow> 'w \<Rightarrow> string \<Rightarrow> Records \<times> 'w" where
  "GetRecords net w domain =
     (let domain = Fqdn domain
      in case queryRecords net w domain TypeA of (a, w1) \<Rightarrow>
         case queryRecords net w1 domain TypeAAAA of (aaaa, w2) \<Rightarrow>
         case queryMX net w2 domain of (mx, w3) \<Rightarrow>
         case queryTXT net w3 domain of (txt, w4) \<Rightarrow>
         case queryRecords net w4 domain TypeCNAME of (cname, w5) \<Rightarrow>
           (\<lparr>Records_A = a, Records_AAAA = aaaa, Records_MX = mx, Records_TXT = txt,
             Records_NS = [], Records_CNAME = cname\<rparr>, w5))"

section \<open>Vocabulary of the properties\<close>

text \<open>
  \<open>is_NS rr\<close>: the record is an NS record, with target \<open>ns_target rr\<close>.
  \<open>glue_for ns rr\<close>: the record is an A record whose owner name is exactly \<open>ns\<close>;
  \<open>rr_addr rr\<close> is the address an A or AAAA record carries.
\<close>

fun is_NS :: "RR \<Rightarrow> bool" where
  "is_NS (NS hdr ns) = True"
| "is_NS _ = False"

fun ns_target :: "RR \<Rightarrow> string" where
  "ns_target (NS hdr ns) = ns"
| "ns_target _ = []"

fun glue_for :: "string \<Rightarrow> RR \<Rightarrow> bool" where
  "glue_for ns (A hdr a) = (Name hdr = ns)"
| "glue_for ns _ = False"

fun rr_addr :: "RR \<Rightarrow> IP" where
  "rr_addr (A hdr a) = a"
| "rr_addr (AAAA hdr a) = a"
| "rr_addr _ = []"

text \<open>The first address of a list of resolved addresses, empty when there is none.\<close>

definition first_address :: "string list \<Rightarrow> string" where
  "first_address ips = (case ips of [] \<Rightarrow> [] | ip # _ \<Rightarrow> ip)"

text \<open>
  \<open>unresolved net extras rr\<close>: if \<open>rr\<close> is an NS record, the additional section
  \<open>extras\<close> holds no glue for its target, and in some state of the world the system
  resolution of its name gives no address.
\<close>

definition unresolved :: "'w Net \<Rightarrow> RR list \<Rightarrow> RR \<Rightarrow> bool" where
  "unresolved net extras rr \<longleftrightarrow>
     (is_NS rr \<longrightarrow>
        find (glue_for (ns_target rr)) extras = None
      \<and> (\<exists>wj. first_address (fst (LookupHost net wj (TrimSuffix (ns_target rr) ''.''))) = []))"

text \<open>
  \<open>ns_address net extras w ns\<close>: the address the tracer obtains for the NS target \<open>ns\<close>
  in the world \<open>w\<close>: the glue of the additional section \<open>extras\<close> when there is some,
  else the first address the system resolves for the name, else the empty string.
\<close>

definition ns_address :: "'w Net \<Rightarrow> RR list \<Rightarrow> 'w \<Rightarrow> string \<Rightarrow> string" where
  "ns_address net extras w ns =
     (case find (glue_for ns) extras of
        Some g \<Rightarrow> IP_String (rr_addr g)
      | None \<Rightarrow> first_address (fst (LookupHost net w (TrimSuffix ns ''.''))))"

text \<open>\<open>emit_step zone ns steps\<close>: the steps after a hop that settled on the NS target \<open>ns\<close>.\<close>

definition emit_step :: "string \<Rightarrow> string \<Rightarrow> TraceStep list \<Rightarrow> TraceStep list" where
  "emit_step zone ns steps =
     (if TrimSuffix ns ''.'' \<noteq> []
      then steps @ [\<lparr>Zone = zone, Server = TrimSuffix ns ''.''\<rparr>] else steps)"

text \<open>
  \<open>first_txt resp\<close>: the first string of the first answer, when the first answer is a
  TXT record that holds a string. \<open>no_txt reply\<close>: the reply gives no such string: it is
  a transport error, or its answer section is empty, or its first answer is not a TXT
  record, or is a TXT record without strings.
\<close>

fun is_TXT :: "RR \<Rightarrow> bool" where
  "is_TXT (TXT hdr txt) = True"
| "is_TXT _ = False"

fun txt_strings :: "RR \<Rightarrow> string list" where
  "txt_strings (TXT hdr txt) = txt"
| "txt_strings _ = []"

definition first_txt :: "Msg \<Rightarrow> string option" where
  "first_txt resp =
     (case Answer resp of
        [] \<Rightarrow> None
      | rr # _ \<Rightarrow> (case txt_strings rr of [] \<Rightarrow> None | t # _ \<Rightarrow> Some t))"

definition no_txt :: "Msg option \<Rightarrow> bool" where
  "no_txt reply = (case reply of None \<Rightarrow> True | Some resp \<Rightarrow> first_txt resp = None)"

text \<open>
  \<open>before_bar t\<close>: the text of \<open>t\<close> before its first \<open>" | "\<close>, all of \<open>t\<close> when
  there is none. \<open>well_formed_asn s\<close>: \<open>s\<close> is \<open>AS\<close> followed by one or more decimal
  digits and nothing else.
\<close>

definition before_bar :: "string \<Rightarrow> string" where
  "before_bar t = (case Index t '' | '' of None \<Rightarrow> t | Some m \<Rightarrow> take m t)"

definition is_digit :: "char \<Rightarrow> bool" where
  "is_digit c \<longleftrightarrow> c \<in> set ''0123456789''"

definition all_digits :: "string \<Rightarrow> bool" where
  "all_digits s \<longleftrightarrow> s \<noteq> [] \<and> list_all is_digit s"

definition well_formed_asn :: "string \<Rightarrow> bool" where
  "well_formed_asn s \<longleftrightarrow> take 2 s = ''AS'' \<and> all_digits (drop 2 s)"

text \<open>
  \<open>record_text rr\<close>: what the shared extractor of \<open>queryRecords\<close> keeps of one answer:
  the address of an A or AAAA record, the target of a CNAME record without its final
  dot, and nothing of any other record.
\<close>

fun record_text :: "RR \<Rightarrow> string list" where
  "record_text (A hdr a) = [IP_String a]"
| "record_text (AAAA hdr a) = [IP_String a]"
| "record_text (CNAME hdr target) = [TrimSuffix target ''.'']"
| "record_text _ = []"


section \<open>A scripted network\<close>

text \<open>
  A network to run the resolver on: the world is the list of the replies still to come,
  each a message or a transport error, and every question takes the next one (a
  transport error once the list is used up). Host names resolve through a fixed table.
\<close>

definition scripted_net ::
  "(string \<Rightarrow> string list) \<Rightarrow> (string \<Rightarrow> IP option) \<Rightarrow> (Msg option list) Net" where
  "scripted_net hosts parse =
     \<lparr>Exchange = (\<lambda>w q server. case w of [] \<Rightarrow> (None, []) | r # rs \<Rightarrow> (r, rs)),
      LookupHost = (\<lambda>w host. (hosts host, w)),
      ParseIP = parse\<rparr>"

definition no_hosts :: "string \<Rightarrow> string list" where
  "no_hosts host = []"

definition no_parse :: "string \<Rightarrow> IP option" where
  "no_parse s = None"

definition rr_hdr :: "string \<Rightarrow> 16 word \<Rightarrow> RR_Header" where
  "rr_hdr n t = \<lparr>Name = n, Rrtype = t, Class = 1, Ttl = 300\<rparr>"

definition msg_nxdomain :: Msg where
  "msg_nxdomain = \<lparr>Rcode = 3, Answer = [], Ns = [], Extra = []\<rparr>"

text \<open>
  Replies to an NS question for the zone \<open>x.\<close>: a referral with one name server and its
  glue; a referral with two name servers and no glue; and a reply whose answer section
  holds a CNAME record only while its authority section names a server, with glue.
\<close>

definition msg_referral :: Msg where
  "msg_referral =
     \<lparr>Rcode = 0, Answer = [],
      Ns = [NS (rr_hdr ''x.'' TypeNS) ''ns1.x.''],
      Extra = [A (rr_hdr ''ns1.x.'' TypeA) [10, 0, 0, 1]]\<rparr>"

definition msg_two_ns :: Msg where
  "msg_two_ns =
     \<lparr>Rcode = 0, Answer = [],
      Ns = [NS (rr_hdr ''x.'' TypeNS) ''ns1.x.'', NS (rr_hdr ''x.'' TypeNS) ''ns2.x.''],
      Extra = []\<rparr>"

definition msg_cname_answer :: Msg where
  "msg_cname_answer =
     \<lparr>Rcode = 0, Answer = [CNAME (rr_hdr ''x.'' TypeCNAME) ''y.''],
      Ns = [NS (rr_hdr ''x.'' TypeNS) ''ns1.x.''],
      Extra = [A (rr_hdr ''ns1.x.'' TypeA) [10, 0, 0, 1]]\<rparr>"

definition hosts_nine :: "string \<Rightarrow> string list" where
  "hosts_nine host = [''9.9.9.9'']"

text \<open>A reply whose answer section itself holds an NS record.\<close>

definition msg_answer_ns :: Msg where
  "msg_answer_ns =
     \<lparr>Rcode = 0, Answer = [NS (rr_hdr ''x.'' TypeNS) ''ns1.x.''],
      Ns = [NS (rr_hdr ''x.'' TypeNS) ''ns9.x.''],
      Extra = []\<rparr>"

text \<open>A parser that knows one IPv6 literal, and the sixteen bytes it stands for.\<close>

definition addr_2001_db8_1 :: IP where
  "addr_2001_db8_1 = [0x20, 0x01, 0x0d, 0xb8, 0, 0, 0, 0, 0, 0, 0, 0, 0, 0, 0, 0x01]"

definition parse_one :: "string \<Rightarrow> IP option" where
  "parse_one s = (if s = ''2001:db8::1'' then Some addr_2001_db8_1 else None)"

text \<open>
  Replies of the Team Cymru service: an origin answer, an origin answer for a prefix
  announced by two systems, an AS name answer, and an answer whose TXT record is empty.
\<close>

definition msg_origin :: Msg where
  "msg_origin =
     \<lparr>Rcode = 0,
      Answer = [TXT (rr_hdr ''4.3.2.1.origin.asn.cymru.com.'' TypeTXT)
                  [''13335 | 1.2.3.0/24 | AU | apnic | 2011-08-11'']],
      Ns = [], Extra = []\<rparr>"

definition msg_two_origins :: Msg where
  "msg_two_origins =
     \<lparr>Rcode = 0,
      Answer = [TXT (rr_hdr ''4.3.2.1.origin.asn.cymru.com.'' TypeTXT)
                  [''23028 7018 | 1.2.3.0/24 | US | arin | 2000-01-01'']],
      Ns = [], Extra = []\<rparr>"

definition msg_as_name :: Msg where
  "msg_as_name =
     \<lparr>Rcode = 0,
      Answer = [TXT (rr_hdr ''AS13335.asn.cymru.com.'' TypeTXT)
                  [''13335 | US | arin | 2010-07-14 | CLOUDFLARENET, US'']],
      Ns = [], Extra = []\<rparr>"

definition msg_empty_txt :: Msg where
  "msg_empty_txt =
     \<lparr>Rcode = 0,
      Answer = [TXT (rr_hdr ''4.3.2.1.origin.asn.cymru.com.'' TypeTXT) []],
      Ns = [], Extra = []\<rparr>"

text \<open>
  An answer to an A question that goes through an alias, and an answer to a TXT
  question with a long record in two strings, a short record and a stray A record.
\<close>

definition msg_alias :: Msg where
  "msg_alias =
     \<lparr>Rcode = 0,
      Answer = [CNAME (rr_hdr ''www.x.'' TypeCNAME) ''x.'',
                A (rr_hdr ''x.'' TypeA) [192, 0, 2, 1]],
      Ns = [], Extra = []\<rparr>"

definition msg_txts :: Msg where
  "msg_txts =
     \<lparr>Rcode = 0,
      Answer = [TXT (rr_hdr ''x.'' TypeTXT)
                  [''0123456789012345678901234567890123456789'',
                   ''abcdefghijklmnopqrstuvwxyz''],
                TXT (rr_hdr ''x.'' TypeTXT) [''v=spf1 -all''],
                A (rr_hdr ''x.'' TypeA) [192, 0, 2, 1]],
      Ns = [], Extra = []\<rparr>"

text \<open>
  A network that answers by the server asked and keeps the list of the servers asked:
  the root server \<open>198.41.0.4\<close> refers to \<open>ns1.x.\<close> with glue \<open>10.0.0.1\<close>, the server
  at \<open>10.0.0.1\<close> answers with the name server of \<open>y.x.\<close>, and no other server answers.
  Every host name resolves to \<open>9.9.9.9\<close>.
\<close>

definition msg_deeper :: Msg where
  "msg_deeper =
     \<lparr>Rcode = 0, Answer = [NS (rr_hdr ''y.x.'' TypeNS) ''ns.y.x.''],
      Ns = [], Extra = []\<rparr>"

definition routed_net :: "(string list) Net" where
  "routed_net =
     \<lparr>Exchange = (\<lambda>w q server.
         (if server = ''198.41.0.4:53'' then Some msg_referral
          else if server = ''10.0.0.1:53'' then Some msg_deeper
          else None,
          w @ [server])),
      LookupHost = (\<lambda>w host. ([''9.9.9.9''], w)),
      ParseIP = no_parse\<rparr>"


section \<open>Properties\<close>

subsection \<open>Facts about the library functions\<close>

lemma Index_char:
  "Index s [c] = (if c \<in> set s then Some (length (takeWhile (\<lambda>x. x \<noteq> c) s)) else None)"
  by (induction s) auto

lemma Index_char_append:
  "c \<notin> set a \<Longrightarrow> Index (a @ c # r) [c] = Some (length a)"
  by (induction a) auto

lemma Index_char_none: "c \<notin> set s \<Longrightarrow> Index s [c] = None"
  by (simp add: Index_char)

lemma Count_Nil: "sep \<noteq> [] \<Longrightarrow> Count [] sep = 0"
  by (subst Count.simps) simp

lemma Count_char_Cons:
  "Count (x # s) [c] = (if x = c then Suc (Count s [c]) else Count s [c])"
proof (cases "x = c")
  case True
  then show ?thesis by (subst Count.simps) simp
next
  case False
  show ?thesis
  proof (cases "Index s [c]")
    case None
    then have "Count s [c] = 0" by (subst Count.simps) simp
    moreover have "Count (x # s) [c] = 0" using None False by (subst Count.simps) simp
    ultimately show ?thesis using False by simp
  next
    case (Some i)
    then have "Count s [c] = Suc (Count (drop (i + 1) s) [c])"
      by (subst Count.simps) simp
    moreover have "Count (x # s) [c] = Suc (Count (drop (i + 1) s) [c])"
      using Some False by (subst Count.simps) simp
    ultimately show ?thesis using False by simp
  qed
qed

lemma Count_char: "Count s [c] = count_list s c"
  by (induction s) (simp_all add: Count_Nil Count_char_Cons)

lemma Index_bound: "sep \<noteq> [] \<Longrightarrow> Index s sep = Some i \<Longrightarrow> i + length sep \<le> length s"
proof (induction s arbitrary: i)
  case Nil then show ?case by simp
next
  case (Cons a s)
  show ?case
  proof (cases "take (length sep) (a # s) = sep")
    case True
    then have "length (take (length sep) (a # s)) = length sep"
      by simp
    then have "length sep \<le> length (a # s)"
      by (simp del: take_Suc_Cons)
    with True Cons.prems show ?thesis by simp
  next
    case False
    with Cons show ?thesis by auto
  qed
qed

lemma Count_le_length: "sep \<noteq> [] \<Longrightarrow> Count s sep \<le> length s"
proof (induction s sep rule: Count.induct)
  case (1 s sep)
  show ?case
  proof (cases "Index s sep")
    case None
    then show ?thesis using "1.prems" by (subst Count.simps) simp
  next
    case (Some i)
    have b: "i + length sep \<le> length s" using Index_bound[OF "1.prems" Some] .
    have ih: "Count (drop (i + length sep) s) sep \<le> length s - (i + length sep)"
      using "1.IH"[OF "1.prems" Some "1.prems"] by simp
    have pos: "0 < length sep" using "1.prems" by simp
    have c: "Count s sep = Suc (Count (drop (i + length sep) s) sep)"
      using "1.prems" Some by (subst Count.simps) simp
    from b ih pos show ?thesis unfolding c by linarith
  qed
qed

lemma length_split_loop_Count:
  "sep \<noteq> [] \<Longrightarrow> length (split_loop (Count s sep) s sep) = Suc (Count s sep)"
proof (induction s sep rule: Count.induct)
  case (1 s sep)
  show ?case
  proof (cases "Index s sep")
    case None
    then have "Count s sep = 0" using "1.prems" by (subst Count.simps) simp
    then show ?thesis by simp
  next
    case (Some i)
    have c: "Count s sep = Suc (Count (drop (i + length sep) s) sep)"
      using "1.prems" Some by (subst Count.simps) simp
    show ?thesis using "1.IH"[OF "1.prems" Some "1.prems"] Some by (simp add: c)
  qed
qed

lemma Split_eq: "sep \<noteq> [] \<Longrightarrow> Split s sep = split_loop (Count s sep) s sep"
  using Count_le_length[of sep s] by (simp add: Split_def genSplit_def Let_def)

lemma length_Split_char: "length (Split s [c]) = Suc (count_list s c)"
proof -
  have "length (Split s [c]) = Suc (Count s [c])"
    by (simp only: Split_eq [of "[c]"] length_split_loop_Count not_Cons_self2 simp_thms)
  then show ?thesis by (simp add: Count_char)
qed

lemma Split_four:
  assumes "c \<notin> set a" "c \<notin> set b" "c \<notin> set d" "c \<notin> set e"
  shows "Split (a @ c # b @ c # d @ c # e) [c] = [a, b, d, e]"
proof -
  have n: "Count (a @ c # b @ c # d @ c # e) [c] = Suc (Suc (Suc 0))"
    using assms by (simp add: Count_char)
  have "split_loop (Suc (Suc (Suc 0))) (a @ c # b @ c # d @ c # e) [c] = [a, b, d, e]"
    using assms by (simp add: Index_char_append Index_char_none)
  then show ?thesis by (simp only: Split_eq [of "[c]"] n not_Cons_self2 simp_thms)
qed

subsection \<open>Facts about one hop of the trace\<close>

lemma fmt_base_nonempty: "fmt_base b n \<noteq> []"
  by (subst fmt_base.simps) simp

lemma Join_nonempty: "x \<noteq> [] \<Longrightarrow> Join (x # xs) sep \<noteq> []"
  by (cases xs) simp_all

lemma string4_nonempty: "p \<noteq> [] \<Longrightarrow> string4 p \<noteq> []"
  by (cases p) (simp_all add: string4_def fmt_d_def Join_nonempty fmt_base_nonempty)

lemma v6u16_nonempty: "2 \<le> length ip \<Longrightarrow> v6u16 ip \<noteq> []"
  by (cases ip rule: v6u16.cases) simp_all

lemma string6_nonempty: "2 \<le> length ip \<Longrightarrow> string6 ip \<noteq> []"
proof -
  assume l: "2 \<le> length ip"
  obtain g gs where g: "v6u16 ip = g # gs"
    using v6u16_nonempty[OF l] by (cases "v6u16 ip") auto
  show ?thesis
    by (simp add: string6_def g Let_def fmt_x_def Join_nonempty fmt_base_nonempty
        split: prod.splits)
qed

lemma IP_String_nonempty: "IP_String ip \<noteq> []"
proof (cases "To4 ip")
  case None
  then show ?thesis by (auto simp: IP_String_def string6_nonempty)
next
  case (Some p4)
  then have "p4 \<noteq> []" by (auto simp: To4_def split: if_splits)
  with Some show ?thesis by (auto simp: IP_String_def string4_nonempty)
qed

lemma glue_scan_find:
  "glue_scan ns extras nx =
     (case find (glue_for ns) extras of None \<Rightarrow> nx | Some g \<Rightarrow> IP_String (rr_addr g))"
  by (induction ns extras nx rule: glue_scan.induct) simp_all

lemma ns_step_empty:
  "ns_step net extras ns ([], sn, w) =
     (case find (glue_for ns) extras of
        Some g \<Rightarrow> (IP_String (rr_addr g), TrimSuffix ns ''.'', w)
      | None \<Rightarrow>
          (first_address (fst (LookupHost net w (TrimSuffix ns ''.''))), TrimSuffix ns ''.'',
           snd (LookupHost net w (TrimSuffix ns ''.''))))"
  by (cases "LookupHost net w (TrimSuffix ns ''.'')")
     (simp add: ns_step_def glue_scan_find IP_String_nonempty first_address_def Let_def
        split: option.splits list.splits)

lemma ns_loop_no_NS: "filter is_NS rrs = [] \<Longrightarrow> ns_loop net extras rrs st = st"
  by (induction net extras rrs st rule: ns_loop.induct) simp_all

lemma ns_loop_skip: "\<not> is_NS rr \<Longrightarrow> ns_loop net extras (rr # rrs) st = ns_loop net extras rrs st"
  by (cases rr) simp_all

lemma is_NS_iff: "is_NS rr \<longleftrightarrow> (\<exists>hdr ns. rr = NS hdr ns)"
  by (cases rr) simp_all

lemma ns_loop_pick:
  "ns_loop net extras rrs ([], sn0, w0) = (nx, sn, w') \<Longrightarrow>
     (filter is_NS rrs = [] \<and> (nx, sn, w') = ([], sn0, w0)) \<or>
     (\<exists>pre hdr ns post sn1 w1.
         rrs = pre @ NS hdr ns # post
       \<and> (nx, sn, w') = ns_step net extras ns ([], sn1, w1)
       \<and> (nx = [] \<longrightarrow> filter is_NS post = [])
       \<and> (\<forall>rr \<in> set pre. unresolved net extras rr))"
proof (induction rrs arbitrary: sn0 w0)
  case Nil
  then show ?case by simp
next
  case (Cons rr rrs)
  show ?case
  proof (cases "is_NS rr")
    case False
    then have "ns_loop net extras rrs ([], sn0, w0) = (nx, sn, w')"
      using Cons.prems by (simp add: ns_loop_skip)
    from Cons.IH[OF this] show ?thesis
    proof
      assume "filter is_NS rrs = [] \<and> (nx, sn, w') = ([], sn0, w0)"
      then show ?thesis using False by simp
    next
      assume "\<exists>pre hdr ns post sn1 w1.
         rrs = pre @ NS hdr ns # post
       \<and> (nx, sn, w') = ns_step net extras ns ([], sn1, w1)
       \<and> (nx = [] \<longrightarrow> filter is_NS post = [])
       \<and> (\<forall>rr \<in> set pre. unresolved net extras rr)"
      then obtain pre hdr' ns' post sn2 w2 where
        p: "rrs = pre @ NS hdr' ns' # post"
           "(nx, sn, w') = ns_step net extras ns' ([], sn2, w2)"
           "nx = [] \<longrightarrow> filter is_NS post = []"
           "\<forall>rr \<in> set pre. unresolved net extras rr"
        by blast
      have "rr # rrs = (rr # pre) @ NS hdr' ns' # post" using p(1) by simp
      moreover have "\<forall>r \<in> set (rr # pre). unresolved net extras r"
        using p(4) False by (simp add: unresolved_def)
      ultimately show ?thesis using p(2,3)
        by (intro disjI2 exI[of _ "rr # pre"] exI[of _ hdr'] exI[of _ ns'] exI[of _ post]
            exI[of _ sn2] exI[of _ w2]) blast
    qed
  next
    case True
    then obtain hdr ns where NS: "rr = NS hdr ns" by (auto simp: is_NS_iff)
    obtain nx1 sn1 w1 where st: "ns_step net extras ns ([], sn0, w0) = (nx1, sn1, w1)"
      by (cases "ns_step net extras ns ([], sn0, w0)") auto
    have here: "rr # rrs = [] @ NS hdr ns # rrs" using NS by simp
    show ?thesis
    proof (cases "nx1 = []")
      case False
      then have "(nx, sn, w') = ns_step net extras ns ([], sn0, w0)"
        using Cons.prems NS st by simp
      with here False st show ?thesis
        by (intro disjI2 exI[of _ "[]"] exI[of _ hdr] exI[of _ ns] exI[of _ rrs]
            exI[of _ sn0] exI[of _ w0]) auto
    next
      case True
      have noglue: "find (glue_for ns) extras = None"
        using st True by (auto simp: ns_step_empty IP_String_nonempty split: option.splits)
      have lk: "first_address (fst (LookupHost net w0 (TrimSuffix ns ''.''))) = []"
        using st True noglue by (auto simp: ns_step_empty)
      have un: "unresolved net extras rr"
        using noglue lk NS by (auto simp: unresolved_def)
      have rest: "ns_loop net extras rrs ([], sn1, w1) = (nx, sn, w')"
        using Cons.prems NS st True by simp
      from Cons.IH[OF rest] show ?thesis
      proof
        assume a: "filter is_NS rrs = [] \<and> (nx, sn, w') = ([], sn1, w1)"
        then have "(nx, sn, w') = ns_step net extras ns ([], sn0, w0)"
          using st True by simp
        with here a show ?thesis
          by (intro disjI2 exI[of _ "[]"] exI[of _ hdr] exI[of _ ns] exI[of _ rrs]
              exI[of _ sn0] exI[of _ w0]) auto
      next
        assume "\<exists>pre hdr ns post sn1 w1.
           rrs = pre @ NS hdr ns # post
         \<and> (nx, sn, w') = ns_step net extras ns ([], sn1, w1)
         \<and> (nx = [] \<longrightarrow> filter is_NS post = [])
         \<and> (\<forall>rr \<in> set pre. unresolved net extras rr)"
        then obtain pre hdr' ns' post sn2 w2 where
          p: "rrs = pre @ NS hdr' ns' # post"
             "(nx, sn, w') = ns_step net extras ns' ([], sn2, w2)"
             "nx = [] \<longrightarrow> filter is_NS post = []"
             "\<forall>rr \<in> set pre. unresolved net extras rr"
          by blast
        have "rr # rrs = (rr # pre) @ NS hdr' ns' # post" using p(1) by simp
        moreover have "\<forall>r \<in> set (rr # pre). unresolved net extras r"
          using p(4) un by simp
        ultimately show ?thesis using p(2,3)
          by (intro disjI2 exI[of _ "rr # pre"] exI[of _ hdr'] exI[of _ ns'] exI[of _ post]
              exI[of _ sn2] exI[of _ w2]) blast
      qed
    qed
  qed
qed


lemma trace_zone_resp:
  "Exchange net w \<lparr>qname = zone, qtype = TypeNS, RecursionDesired = False\<rparr> (cur @ '':53'')
     = (Some resp, w1) \<Longrightarrow>
   ns_loop net (Extra resp) (nsRecords resp) ([], [], w1) = (nx, sn, w2) \<Longrightarrow>
   trace_zone net zone (steps, cur, w) =
     (if sn \<noteq> [] then steps @ [\<lparr>Zone = zone, Server = sn\<rparr>] else steps,
      if nx \<noteq> [] then nx else cur, w2)"
  by (simp add: trace_zone_def)

lemma ns_step_address:
  "fst (ns_step net extras ns ([], sn, w)) = ns_address net extras w ns"
  "fst (snd (ns_step net extras ns ([], sn, w))) = TrimSuffix ns ''.''"
  by (simp_all add: ns_step_empty ns_address_def split: option.splits)

lemma ns_loop_first:
  "filter is_NS rrs = NS hdr ns # rest \<Longrightarrow> fst (ns_step net extras ns st) \<noteq> [] \<Longrightarrow>
   ns_loop net extras rrs st = ns_step net extras ns st"
proof (induction rrs)
  case Nil
  then show ?case by simp
next
  case (Cons rr rrs)
  show ?case
  proof (cases "is_NS rr")
    case True
    then have "rr = NS hdr ns" using Cons.prems(1) by simp
    then show ?thesis using Cons.prems(2) by simp
  next
    case False
    then show ?thesis using Cons by (simp add: ns_loop_skip)
  qed
qed








lemma trace_loop_two_hops:
  "trace_loop net (Suc i) (zone # zone' # rest) (steps, cur, w) =
     (case trace_zone net zone (steps, cur, w) of
        (steps1, next, w2) \<Rightarrow>
          trace_loop net (Suc (Suc (Suc i))) rest
            (case Exchange net w2 \<lparr>qname = zone', qtype = TypeNS, RecursionDesired = False\<rparr>
                    (next @ '':53'') of
               (None, w3) \<Rightarrow> (steps1, next, w3)
             | (Some resp', w3) \<Rightarrow>
                 (case ns_loop net (Extra resp') (nsRecords resp') ([], [], w3) of
                    (nx, sn, w4) \<Rightarrow>
                      (if sn \<noteq> [] then steps1 @ [\<lparr>Zone = zone', Server = sn\<rparr>] else steps1,
                       if nx \<noteq> [] then nx else next,
                       w4))))"
  by (simp add: trace_zone_def split: prod.splits)

lemma Trace_from_root:
  "Trace net w domain =
     (case trace_loop net (Suc 0) (tl (trace_zones (domain_parts domain)))
             ([\<lparr>Zone = ''.'', Server = ''a.root-servers.net''\<rparr>], ''198.41.0.4'', w) of
        (steps, _, w') \<Rightarrow> (steps, w'))"
  by (simp add: Trace_def trace_zones_def Let_def rootServers_def getRootServerName_def
      rootNames_def)

lemma trace_zone_prefers_glue:
  assumes ex: "Exchange net w \<lparr>qname = zone, qtype = TypeNS, RecursionDesired = False\<rparr>
                 (cur @ '':53'') = (Some resp, w1)"
      and ns: "filter is_NS (nsRecords resp) \<noteq> []"
  shows "\<exists>hdr ns wk.
           NS hdr ns \<in> set (nsRecords resp)
         \<and> fst (trace_zone net zone (steps, cur, w)) =
             (if TrimSuffix ns ''.'' \<noteq> []
              then steps @ [\<lparr>Zone = zone, Server = TrimSuffix ns ''.''\<rparr>] else steps)
         \<and> snd (trace_zone net zone (steps, cur, w)) =
             (case find (glue_for ns) (Extra resp) of
                Some g \<Rightarrow> (IP_String (rr_addr g), wk)
              | None \<Rightarrow>
                  (if first_address (fst (LookupHost net wk (TrimSuffix ns ''.''))) \<noteq> []
                   then first_address (fst (LookupHost net wk (TrimSuffix ns ''.'')))
                   else cur,
                   snd (LookupHost net wk (TrimSuffix ns ''.''))))"
proof -
  obtain nx sn w2 where
    loop: "ns_loop net (Extra resp) (nsRecords resp) ([], [], w1) = (nx, sn, w2)"
    by (cases "ns_loop net (Extra resp) (nsRecords resp) ([], [], w1)") auto
  from ns_loop_pick[OF loop] ns obtain pre hdr t post sn1 wk where
    pick: "nsRecords resp = pre @ NS hdr t # post"
          "(nx, sn, w2) = ns_step net (Extra resp) t ([], sn1, wk)"
    by blast
  have mem: "NS hdr t \<in> set (nsRecords resp)" using pick(1) by simp
  have tz: "trace_zone net zone (steps, cur, w) =
     (if sn \<noteq> [] then steps @ [\<lparr>Zone = zone, Server = sn\<rparr>] else steps,
      if nx \<noteq> [] then nx else cur, w2)"
    by (rule trace_zone_resp[OF ex loop])
  show ?thesis
  proof (cases "find (glue_for t) (Extra resp)")
    case None
    then have "nx = first_address (fst (LookupHost net wk (TrimSuffix t ''.'')))"
      "sn = TrimSuffix t ''.''" "w2 = snd (LookupHost net wk (TrimSuffix t ''.''))"
      using pick(2) by (simp_all add: ns_step_empty)
    with tz None mem show ?thesis
      by (intro exI[of _ hdr] exI[of _ t] exI[of _ wk]) simp
  next
    case (Some g)
    then have "nx = IP_String (rr_addr g)" "sn = TrimSuffix t ''.''" "w2 = wk"
      using pick(2) by (simp_all add: ns_step_empty)
    with tz Some mem show ?thesis
      by (intro exI[of _ hdr] exI[of _ t] exI[of _ wk]) (simp add: IP_String_nonempty)
  qed
qed




subsection \<open>Facts about the ASN query name\<close>

lemma Contains_char: "Contains s [c] \<longleftrightarrow> c \<in> set s"
  by (simp add: Contains_def Index_char)

lemma fmt_x_nibble: "n < 16 \<Longrightarrow> fmt_x n = [digit_char n]"
  by (simp add: fmt_x_def fmt_base.simps)

lemma byte_less: "unat (b :: byte) < 256"
  using unsigned_less[of b, where ?'a = nat] by simp

lemma high_nibble: "unat (drop_bit 4 (b :: byte)) = unat b div 16"
  by (simp add: drop_bit_eq_div unat_div)

lemma mask_four: "(15 :: byte) = mask 4"
  by (simp add: mask_eq_exp_minus_1)

lemma low_nibble: "unat ((b :: byte) AND 0x0f) = unat b mod 16"
proof -
  have "b AND 0x0f = take_bit 4 b"
    by (simp only: mask_four take_bit_eq_mask)
  then have "unat (b AND 0x0f) = take_bit 4 (unat b)"
    by (simp only: unsigned_take_bit_eq)
  then show ?thesis by (simp add: take_bit_eq_mod)
qed

lemma high_nibble_less: "unat (b :: byte) div 16 < 16"
  using byte_less[of b] by simp

lemma nibbles_fold:
  "n \<le> length full \<Longrightarrow>
   foldl (\<lambda>nibbles i. nibbles @ [fmt_x (unat ((full ! i) AND 0x0f))]
                               @ [fmt_x (unat (drop_bit 4 (full ! i)))])
         acc (rev [0..<n])
   = acc @ concat (map (\<lambda>b. [fmt_x (unat (b AND 0x0f)), fmt_x (unat (drop_bit 4 b))])
                       (rev (take n full)))"
proof (induction n arbitrary: acc)
  case 0
  then show ?case by simp
next
  case (Suc n)
  then have "take (Suc n) full = take n full @ [full ! n]"
    by (simp add: take_Suc_conv_app_nth)
  with Suc show ?case by simp
qed

lemma asn_nibbles_rev:
  "asn_nibbles full =
     rev (concat (map (\<lambda>b. [[digit_char (unat b div 16)], [digit_char (unat b mod 16)]]) full))"
proof -
  have "asn_nibbles full =
      concat (map (\<lambda>b. [fmt_x (unat (b AND 0x0f)), fmt_x (unat (drop_bit 4 b))]) (rev full))"
    using nibbles_fold[of "length full" full "[]"] by (simp add: asn_nibbles_def)
  also have "\<dots> = concat (map (\<lambda>b. [[digit_char (unat b mod 16)], [digit_char (unat b div 16)]])
                        (rev full))"
    by (simp add: low_nibble high_nibble fmt_x_nibble high_nibble_less)
  also have "\<dots> = rev (concat (map (\<lambda>b. [[digit_char (unat b div 16)],
                                          [digit_char (unat b mod 16)]]) full))"
    by (induction full) simp_all
  finally show ?thesis .
qed

lemma To16_length: "To16 addr = Some full \<Longrightarrow> length full = 16"
  by (auto simp: To16_def v4InV6Prefix_def split: if_splits)

lemma length_concat_pairs: "length (concat (map (\<lambda>b. [f b, g b]) xs)) = 2 * length xs"
  by (induction xs) simp_all

subsection \<open>Facts about the ASN lookup\<close>

lemma split_loop_nonempty: "split_loop k s sep \<noteq> []"
  by (cases k) (simp_all split: option.splits)

lemma hd_split_loop:
  "hd (split_loop (Suc k) s sep) = (case Index s sep of None \<Rightarrow> s | Some m \<Rightarrow> take m s)"
  by (simp split: option.splits)

lemma Index_Nil_bar: "Index [] '' | '' = None"
  by simp

lemma SplitN_bar_first: "SplitN t '' | '' 5 ! 0 = before_bar t"
proof (cases t)
  case Nil
  then show ?thesis by (simp add: SplitN_def genSplit_def before_bar_def)
next
  case (Cons c cs)
  then obtain k where k: "nat ((if 5 > int (length t) + 1 then int (length t) + 1 else 5) - 1) = Suc k"
    by (cases "nat ((if 5 > int (length t) + 1 then int (length t) + 1 else 5) - 1)")
       (auto split: if_splits)
  have "SplitN t '' | '' 5 = split_loop (Suc k) t '' | ''"
    using k by (simp add: SplitN_def genSplit_def Let_def)
  then show ?thesis
    using hd_split_loop[of k t "'' | ''"] split_loop_nonempty[of "Suc k" t "'' | ''"]
    by (simp add: before_bar_def hd_conv_nth)
qed

lemma SplitN_bar_nonempty: "SplitN t '' | '' 5 \<noteq> []"
  by (simp add: SplitN_def genSplit_def Let_def split_loop_nonempty)

lemma no_txt_iff:
  "no_txt reply \<longleftrightarrow>
     reply = None
   \<or> (\<exists>resp. reply = Some resp
         \<and> (Answer resp = [] \<or> \<not> is_TXT (hd (Answer resp))
             \<or> txt_strings (hd (Answer resp)) = []))"
proof (cases reply)
  case None
  then show ?thesis by (simp add: no_txt_def)
next
  case (Some resp)
  show ?thesis
  proof (cases "Answer resp")
    case Nil
    with Some show ?thesis by (simp add: no_txt_def first_txt_def)
  next
    case (Cons rr rrs)
    with Some show ?thesis
      by (cases rr) (simp_all add: no_txt_def first_txt_def split: list.splits)
  qed
qed

lemma lookupASName_no_txt:
  "no_txt (fst (Exchange net w
             \<lparr>qname = ''AS'' @ asn @ ''.asn.cymru.com.'', qtype = TypeTXT, RecursionDesired = True\<rparr>
             ''8.8.8.8:53'')) \<Longrightarrow>
   fst (lookupASName net w asn) = \<lparr>ASN = ''AS'' @ asn, Org = []\<rparr>"
  by (auto simp: lookupASName_def no_txt_def first_txt_def resolverAddr_def Let_def
      split: prod.splits option.splits list.splits RR.splits)

lemma lookupASName_ASN: "ASN (fst (lookupASName net w asn)) = ''AS'' @ asn"
  by (auto simp: lookupASName_def Let_def split: prod.splits option.splits list.splits RR.splits)

lemma LookupASN_cases:
  "LookupASN net w ip =
     (case asn_query net ip of
        None \<Rightarrow> (None, w)
      | Some query \<Rightarrow>
          (case Exchange net w \<lparr>qname = query, qtype = TypeTXT, RecursionDesired = True\<rparr>
                  ''8.8.8.8:53'' of
             (reply, w1) \<Rightarrow>
               (case reply of
                  None \<Rightarrow> (None, w1)
                | Some resp \<Rightarrow>
                    (case first_txt resp of
                       None \<Rightarrow> (None, w1)
                     | Some t \<Rightarrow>
                         (Some (fst (lookupASName net w1 (TrimSpace (before_bar t)))),
                          snd (lookupASName net w1 (TrimSpace (before_bar t))))))))"
  by (auto simp: LookupASN_def first_txt_def resolverAddr_def Let_def SplitN_bar_first
           SplitN_bar_nonempty
      split: prod.splits option.splits list.splits RR.splits)


lemma asn_query_None_iff:
  "asn_query net ip = None \<longleftrightarrow>
     (if CHR '':'' \<in> set ip
      then (case ParseIP net ip of None \<Rightarrow> True | Some addr \<Rightarrow> To16 addr = None)
      else count_list ip CHR ''.'' \<noteq> 3)"
  by (auto simp: asn_query_def Contains_char length_Split_char Let_def
      split: option.splits)

subsection \<open>Facts about the record queries\<close>

lemma Join_empty_sep: "Join xs [] = concat xs"
  by (induction xs "[] :: string" rule: Join.induct) simp_all

lemma collect_txt_map:
  "collect_txt answers results =
     results @ map (\<lambda>rr. txt_value (txt_strings rr)) (filter is_TXT answers)"
  by (induction answers results rule: collect_txt.induct) simp_all

lemma txt_value_long:
  "length (concat txt) > 60 \<Longrightarrow>
     txt_value txt = take 57 (concat txt) @ ''...'' \<and> length (txt_value txt) = 60"
  by (simp add: txt_value_def Join_empty_sep Let_def)

lemma txt_value_short: "length (concat txt) \<le> 60 \<Longrightarrow> txt_value txt = concat txt"
  by (simp add: txt_value_def Join_empty_sep Let_def)

lemma collect_records_concat:
  "collect_records answers results = results @ concat (map record_text answers)"
  by (induction answers results rule: collect_records.induct) simp_all

lemma queryRecords_answer:
  "Exchange net w \<lparr>qname = d, qtype = qt, RecursionDesired = True\<rparr> ''8.8.8.8:53''
     = (Some resp, w1) \<Longrightarrow>
   queryRecords net w d qt = (concat (map record_text (Answer resp)), w1)"
  by (simp add: queryRecords_def resolverAddr_def collect_records_concat)

lemma GetRecords_fields:
  "Records_A (fst (GetRecords net w domain)) = fst (queryRecords net w (Fqdn domain) TypeA)"
  "\<exists>w1. Records_AAAA (fst (GetRecords net w domain))
           = fst (queryRecords net w1 (Fqdn domain) TypeAAAA)"
  "\<exists>w4. Records_CNAME (fst (GetRecords net w domain))
           = fst (queryRecords net w4 (Fqdn domain) TypeCNAME)"
  by (auto simp: GetRecords_def Let_def split: prod.splits) (metis fst_conv)+

subsection \<open>Existence check\<close>

text \<open>
  Claim C5. \<open>Exists\<close> answers false exactly when its one question (type NS, recursion
  desired, the fully qualified domain, sent to the fixed resolver) comes back with a
  message whose response code is the name error. Every other response code gives true,
  and so does a transport error. The world after the call is the world after that one
  exchange: nothing else is sent.
\<close>

theorem Exists_false_iff_name_error:
  "(fst (Exists net w domain) = False \<longleftrightarrow>
      (\<exists>resp. fst (Exchange net w
                  \<lparr>qname = Fqdn domain, qtype = TypeNS, RecursionDesired = True\<rparr>
                  ''8.8.8.8:53'') = Some resp
             \<and> Rcode resp = RcodeNameError))
   \<and> snd (Exists net w domain) =
       snd (Exchange net w
              \<lparr>qname = Fqdn domain, qtype = TypeNS, RecursionDesired = True\<rparr>
              ''8.8.8.8:53'')"
  by (auto simp: Exists_def resolverAddr_def split: prod.splits option.splits)


theorem Exists_false_iff_name_error_witness:
  "fst (Exists (scripted_net no_hosts no_parse) [Some msg_nxdomain] ''nx.example'') = False"
proof -
  have "fst (Exchange (scripted_net no_hosts no_parse) [Some msg_nxdomain]
               \<lparr>qname = Fqdn ''nx.example'', qtype = TypeNS, RecursionDesired = True\<rparr>
               ''8.8.8.8:53'') = Some msg_nxdomain
        \<and> Rcode msg_nxdomain = RcodeNameError"
    by (simp add: scripted_net_def msg_nxdomain_def RcodeNameError_def)
  then show ?thesis
    using Exists_false_iff_name_error
      [of "scripted_net no_hosts no_parse" "[Some msg_nxdomain]" "''nx.example''"]
    by blast
qed


subsection \<open>Delegation trace: glue before system resolution\<close>

text \<open>
  Claim C1. At a hop whose reply holds an NS record in the section searched, the hop
  settles on one NS record of that section, with target \<open>ns\<close>: the step it emits names
  \<open>ns\<close> without its final dot. If the additional section holds an A record whose owner
  name is exactly \<open>ns\<close>, the server of the next hop is the address of the first such
  record, and the world is the one in which this NS record was reached: the system was
  not asked to resolve its name. Only when there is no such A record is the name resolved
  through the system, and the server of the next hop is the first address resolved (the
  server stays as it was when nothing is resolved). That server is where the next hop is
  asked: in the loop over the zones, the question for the zone that follows is sent to
  that address at port 53, in that world, and its reply is handled from there. And
  \<open>Trace\<close> is this loop, run over the zones of the domain after the root step, from the
  first root server.
\<close>

theorem Trace_next_hop_prefers_glue:
  assumes ex: "Exchange net w \<lparr>qname = zone, qtype = TypeNS, RecursionDesired = False\<rparr>
                 (cur @ '':53'') = (Some resp, w1)"
      and ns: "filter is_NS (nsRecords resp) \<noteq> []"
  shows "(\<exists>hdr ns wk.
           NS hdr ns \<in> set (nsRecords resp)
         \<and> fst (trace_zone net zone (steps, cur, w)) =
             (if TrimSuffix ns ''.'' \<noteq> []
              then steps @ [\<lparr>Zone = zone, Server = TrimSuffix ns ''.''\<rparr>] else steps)
         \<and> snd (trace_zone net zone (steps, cur, w)) =
             (case find (glue_for ns) (Extra resp) of
                Some g \<Rightarrow> (IP_String (rr_addr g), wk)
              | None \<Rightarrow>
                  (if first_address (fst (LookupHost net wk (TrimSuffix ns ''.''))) \<noteq> []
                   then first_address (fst (LookupHost net wk (TrimSuffix ns ''.'')))
                   else cur,
                   snd (LookupHost net wk (TrimSuffix ns ''.''))))
         \<and> (let (nextServer, w2) =
                    (case find (glue_for ns) (Extra resp) of
                       Some g \<Rightarrow> (IP_String (rr_addr g), wk)
                     | None \<Rightarrow>
                         (if first_address (fst (LookupHost net wk (TrimSuffix ns ''.''))) \<noteq> []
                          then first_address (fst (LookupHost net wk (TrimSuffix ns ''.'')))
                          else cur,
                          snd (LookupHost net wk (TrimSuffix ns ''.''))));
                  steps1 = emit_step zone ns steps
              in trace_loop net (Suc i) (zone # zone' # rest) (steps, cur, w) =
                   trace_loop net (Suc (Suc (Suc i))) rest
                     (case Exchange net w2
                             \<lparr>qname = zone', qtype = TypeNS, RecursionDesired = False\<rparr>
                             (nextServer @ '':53'') of
                        (None, w3) \<Rightarrow> (steps1, nextServer, w3)
                      | (Some resp', w3) \<Rightarrow>
                          (case ns_loop net (Extra resp') (nsRecords resp') ([], [], w3) of
                             (nx, sn, w4) \<Rightarrow>
                               (if sn \<noteq> []
                                then steps1 @ [\<lparr>Zone = zone', Server = sn\<rparr>] else steps1,
                                if nx \<noteq> [] then nx else nextServer,
                                w4)))))
       \<and> Trace net w0 domain =
           (case trace_loop net (Suc 0) (tl (trace_zones (domain_parts domain)))
                   ([\<lparr>Zone = ''.'', Server = ''a.root-servers.net''\<rparr>], ''198.41.0.4'', w0) of
              (steps', _, w') \<Rightarrow> (steps', w'))"
proof -
  from trace_zone_prefers_glue[OF ex ns, where steps = steps] obtain hdr t wk where
    mem: "NS hdr t \<in> set (nsRecords resp)" and
    f: "fst (trace_zone net zone (steps, cur, w)) =
             (if TrimSuffix t ''.'' \<noteq> []
              then steps @ [\<lparr>Zone = zone, Server = TrimSuffix t ''.''\<rparr>] else steps)" and
    s: "snd (trace_zone net zone (steps, cur, w)) =
             (case find (glue_for t) (Extra resp) of
                Some g \<Rightarrow> (IP_String (rr_addr g), wk)
              | None \<Rightarrow>
                  (if first_address (fst (LookupHost net wk (TrimSuffix t ''.''))) \<noteq> []
                   then first_address (fst (LookupHost net wk (TrimSuffix t ''.'')))
                   else cur,
                   snd (LookupHost net wk (TrimSuffix t ''.''))))"
    by blast
  obtain nextServer w2 where
    n: "(case find (glue_for t) (Extra resp) of
                Some g \<Rightarrow> (IP_String (rr_addr g), wk)
              | None \<Rightarrow>
                  (if first_address (fst (LookupHost net wk (TrimSuffix t ''.''))) \<noteq> []
                   then first_address (fst (LookupHost net wk (TrimSuffix t ''.'')))
                   else cur,
                   snd (LookupHost net wk (TrimSuffix t ''.'')))) = (nextServer, w2)"
    by (cases "(case find (glue_for t) (Extra resp) of
                Some g \<Rightarrow> (IP_String (rr_addr g), wk)
              | None \<Rightarrow>
                  (if first_address (fst (LookupHost net wk (TrimSuffix t ''.''))) \<noteq> []
                   then first_address (fst (LookupHost net wk (TrimSuffix t ''.'')))
                   else cur,
                   snd (LookupHost net wk (TrimSuffix t ''.''))))") auto
  have tz: "trace_zone net zone (steps, cur, w) = (emit_step zone t steps, nextServer, w2)"
    using f s n by (simp add: emit_step_def prod_eq_iff)
  have two: "trace_loop net (Suc i) (zone # zone' # rest) (steps, cur, w) =
                   trace_loop net (Suc (Suc (Suc i))) rest
                     (case Exchange net w2
                             \<lparr>qname = zone', qtype = TypeNS, RecursionDesired = False\<rparr>
                             (nextServer @ '':53'') of
                        (None, w3) \<Rightarrow> (emit_step zone t steps, nextServer, w3)
                      | (Some resp', w3) \<Rightarrow>
                          (case ns_loop net (Extra resp') (nsRecords resp') ([], [], w3) of
                             (nx, sn, w4) \<Rightarrow>
                               (if sn \<noteq> []
                                then emit_step zone t steps @ [\<lparr>Zone = zone', Server = sn\<rparr>]
                                else emit_step zone t steps,
                                if nx \<noteq> [] then nx else nextServer,
                                w4)))"
    by (simp only: trace_loop_two_hops tz prod.case)
  have hop: "\<exists>hdr ns wk.
           NS hdr ns \<in> set (nsRecords resp)
         \<and> fst (trace_zone net zone (steps, cur, w)) =
             (if TrimSuffix ns ''.'' \<noteq> []
              then steps @ [\<lparr>Zone = zone, Server = TrimSuffix ns ''.''\<rparr>] else steps)
         \<and> snd (trace_zone net zone (steps, cur, w)) =
             (case find (glue_for ns) (Extra resp) of
                Some g \<Rightarrow> (IP_String (rr_addr g), wk)
              | None \<Rightarrow>
                  (if first_address (fst (LookupHost net wk (TrimSuffix ns ''.''))) \<noteq> []
                   then first_address (fst (LookupHost net wk (TrimSuffix ns ''.'')))
                   else cur,
                   snd (LookupHost net wk (TrimSuffix ns ''.''))))
         \<and> (let (nextServer, w2) =
                    (case find (glue_for ns) (Extra resp) of
                       Some g \<Rightarrow> (IP_String (rr_addr g), wk)
                     | None \<Rightarrow>
                         (if first_address (fst (LookupHost net wk (TrimSuffix ns ''.''))) \<noteq> []
                          then first_address (fst (LookupHost net wk (TrimSuffix ns ''.'')))
                          else cur,
                          snd (LookupHost net wk (TrimSuffix ns ''.''))));
                  steps1 = emit_step zone ns steps
              in trace_loop net (Suc i) (zone # zone' # rest) (steps, cur, w) =
                   trace_loop net (Suc (Suc (Suc i))) rest
                     (case Exchange net w2
                             \<lparr>qname = zone', qtype = TypeNS, RecursionDesired = False\<rparr>
                             (nextServer @ '':53'') of
                        (None, w3) \<Rightarrow> (steps1, nextServer, w3)
                      | (Some resp', w3) \<Rightarrow>
                          (case ns_loop net (Extra resp') (nsRecords resp') ([], [], w3) of
                             (nx, sn, w4) \<Rightarrow>
                               (if sn \<noteq> []
                                then steps1 @ [\<lparr>Zone = zone', Server = sn\<rparr>] else steps1,
                                if nx \<noteq> [] then nx else nextServer,
                                w4))))"
    using mem f s two
    by (intro exI[of _ hdr] exI[of _ t] exI[of _ wk]) (simp only: n Let_def prod.case simp_thms)
  from hop Trace_from_root[of net w0 domain] show ?thesis by (rule conjI)
qed

theorem Trace_next_hop_prefers_glue_witness:
  "Exchange routed_net [] \<lparr>qname = ''x.'', qtype = TypeNS, RecursionDesired = False\<rparr>
     (''198.41.0.4'' @ '':53'') = (Some msg_referral, [''198.41.0.4:53''])
   \<and> filter is_NS (nsRecords msg_referral) \<noteq> []
   \<and> fst (trace_zone routed_net ''x.''
          ([\<lparr>Zone = ''.'', Server = ''a.root-servers.net''\<rparr>], ''198.41.0.4'', []))
       = [\<lparr>Zone = ''.'', Server = ''a.root-servers.net''\<rparr>,
          \<lparr>Zone = ''x.'', Server = ''ns1.x''\<rparr>]
   \<and> snd (trace_zone routed_net ''x.''
          ([\<lparr>Zone = ''.'', Server = ''a.root-servers.net''\<rparr>], ''198.41.0.4'', []))
       = (''10.0.0.1'', [''198.41.0.4:53''])
   \<and> trace_loop routed_net (Suc 0) [''x.'', ''y.x.'']
         ([\<lparr>Zone = ''.'', Server = ''a.root-servers.net''\<rparr>], ''198.41.0.4'', [])
       = ([\<lparr>Zone = ''.'', Server = ''a.root-servers.net''\<rparr>,
           \<lparr>Zone = ''x.'', Server = ''ns1.x''\<rparr>,
           \<lparr>Zone = ''y.x.'', Server = ''ns.y.x''\<rparr>],
          ''9.9.9.9'', [''198.41.0.4:53'', ''10.0.0.1:53''])
   \<and> Trace routed_net [] ''y.x''
       = ([\<lparr>Zone = ''.'', Server = ''a.root-servers.net''\<rparr>,
           \<lparr>Zone = ''x.'', Server = ''ns1.x''\<rparr>,
           \<lparr>Zone = ''y.x.'', Server = ''ns.y.x''\<rparr>],
          [''198.41.0.4:53'', ''10.0.0.1:53''])"
proof -
  let ?root = "\<lparr>Zone = ''.'', Server = ''a.root-servers.net''\<rparr>"
  have ex: "Exchange routed_net [] \<lparr>qname = ''x.'', qtype = TypeNS, RecursionDesired = False\<rparr>
     (''198.41.0.4'' @ '':53'') = (Some msg_referral, [''198.41.0.4:53''])"
    by (simp add: routed_net_def)
  have ns: "filter is_NS (nsRecords msg_referral) \<noteq> []"
    by (simp add: nsRecords_def msg_referral_def)
  note T = Trace_next_hop_prefers_glue[OF ex ns, where steps = "[?root]" and i = 0
      and zone' = "''y.x.''" and rest = "[]" and ?w0.0 = "[]" and domain = "''y.x''"]
  from T obtain hdr t wk where
    a: "NS hdr t \<in> set (nsRecords msg_referral)" and
    b: "fst (trace_zone routed_net ''x.'' ([?root], ''198.41.0.4'', [])) =
             (if TrimSuffix t ''.'' \<noteq> []
              then [?root] @ [\<lparr>Zone = ''x.'', Server = TrimSuffix t ''.''\<rparr>] else [?root])" and
    c: "snd (trace_zone routed_net ''x.'' ([?root], ''198.41.0.4'', [])) =
             (case find (glue_for t) (Extra msg_referral) of
                Some g \<Rightarrow> (IP_String (rr_addr g), wk)
              | None \<Rightarrow>
                  (if first_address (fst (LookupHost routed_net wk (TrimSuffix t ''.''))) \<noteq> []
                   then first_address (fst (LookupHost routed_net wk (TrimSuffix t ''.'')))
                   else ''198.41.0.4'',
                   snd (LookupHost routed_net wk (TrimSuffix t ''.''))))" and
    d: "(let (nextServer, w2) =
                    (case find (glue_for t) (Extra msg_referral) of
                       Some g \<Rightarrow> (IP_String (rr_addr g), wk)
                     | None \<Rightarrow>
                         (if first_address (fst (LookupHost routed_net wk (TrimSuffix t ''.''))) \<noteq> []
                          then first_address (fst (LookupHost routed_net wk (TrimSuffix t ''.'')))
                          else ''198.41.0.4'',
                          snd (LookupHost routed_net wk (TrimSuffix t ''.''))));
                  steps1 = emit_step ''x.'' t [?root]
              in trace_loop routed_net (Suc 0) (''x.'' # ''y.x.'' # []) ([?root], ''198.41.0.4'', []) =
                   trace_loop routed_net (Suc (Suc (Suc 0))) []
                     (case Exchange routed_net w2
                             \<lparr>qname = ''y.x.'', qtype = TypeNS, RecursionDesired = False\<rparr>
                             (nextServer @ '':53'') of
                        (None, w3) \<Rightarrow> (steps1, nextServer, w3)
                      | (Some resp', w3) \<Rightarrow>
                          (case ns_loop routed_net (Extra resp') (nsRecords resp') ([], [], w3) of
                             (nx, sn, w4) \<Rightarrow>
                               (if sn \<noteq> []
                                then steps1 @ [\<lparr>Zone = ''y.x.'', Server = sn\<rparr>] else steps1,
                                if nx \<noteq> [] then nx else nextServer,
                                w4))))"
    by blast
  from T have e: "Trace routed_net [] ''y.x'' =
           (case trace_loop routed_net (Suc 0) (tl (trace_zones (domain_parts ''y.x'')))
                   ([?root], ''198.41.0.4'', []) of
              (steps', _, w') \<Rightarrow> (steps', w'))"
    by (rule conjunct2)
  from a have t: "t = ''ns1.x.''"
    by (simp add: nsRecords_def msg_referral_def)
  have ip: "IP_String [10, 0, 0, 1] = ''10.0.0.1''"
    by code_simp
  have ts: "TrimSuffix ''ns1.x.'' ''.'' = ''ns1.x''"
    by code_simp
  have glue: "find (glue_for ''ns1.x.'') (Extra msg_referral)
                = Some (A (rr_hdr ''ns1.x.'' TypeA) [10, 0, 0, 1])"
    by (simp add: msg_referral_def rr_hdr_def)
  have tzw: "snd (snd (trace_zone routed_net ''x.'' ([?root], ''198.41.0.4'', [])))
               = [''198.41.0.4:53'']"
    by code_simp
  from c have c': "snd (trace_zone routed_net ''x.'' ([?root], ''198.41.0.4'', []))
                     = (''10.0.0.1'', wk)"
    unfolding t by (simp add: glue ip)
  with tzw have wk: "wk = [''198.41.0.4:53'']" by simp
  from b have b': "fst (trace_zone routed_net ''x.'' ([?root], ''198.41.0.4'', []))
                     = [?root, \<lparr>Zone = ''x.'', Server = ''ns1.x''\<rparr>]"
    unfolding t by (simp add: ts)
  have second: "ns_loop routed_net (Extra msg_deeper) (nsRecords msg_deeper)
                  ([], [], [''198.41.0.4:53'', ''10.0.0.1:53''])
                = (''9.9.9.9'', ''ns.y.x'', [''198.41.0.4:53'', ''10.0.0.1:53''])"
    by code_simp
  have es: "emit_step ''x.'' ''ns1.x.'' [?root] = [?root, \<lparr>Zone = ''x.'', Server = ''ns1.x''\<rparr>]"
    by (simp add: emit_step_def ts)
  have ex2: "Exchange routed_net [''198.41.0.4:53'']
               \<lparr>qname = ''y.x.'', qtype = TypeNS, RecursionDesired = False\<rparr> ''10.0.0.1:53''
             = (Some msg_deeper, [''198.41.0.4:53'', ''10.0.0.1:53''])"
    by (simp add: routed_net_def)
  from d have d': "trace_loop routed_net (Suc 0) [''x.'', ''y.x.'']
         ([?root], ''198.41.0.4'', [])
       = ([?root, \<lparr>Zone = ''x.'', Server = ''ns1.x''\<rparr>, \<lparr>Zone = ''y.x.'', Server = ''ns.y.x''\<rparr>],
          ''9.9.9.9'', [''198.41.0.4:53'', ''10.0.0.1:53''])"
    unfolding t wk
    by (simp add: glue ip es ex2 second del: trace_loop.simps(2))
  have zs: "tl (trace_zones (domain_parts ''y.x'')) = [''x.'', ''y.x.'']"
    by code_simp
  from e d' have e': "Trace routed_net [] ''y.x''
       = ([?root, \<lparr>Zone = ''x.'', Server = ''ns1.x''\<rparr>, \<lparr>Zone = ''y.x.'', Server = ''ns.y.x''\<rparr>],
          [''198.41.0.4:53'', ''10.0.0.1:53''])"
    by (simp add: zs)
  from ex ns b' c' wk d' e' show ?thesis by simp
qed

subsection \<open>Delegation trace: which NS record names the step\<close>

text \<open>
  Claim C2, as the code has it. The loop over the section searched does not stop at the
  first NS record: it goes on to the next NS record as long as no address was obtained.
  So a hop whose reply holds NS records settles on an NS record \<open>ns\<close> such that every
  NS record before it is unresolved (no glue, and no address from the system), and
  such that \<open>ns\<close> is the last NS record of the section when no address was obtained
  for \<open>ns\<close> either; the step names \<open>ns\<close> without its final dot. When an address is
  obtained for the first NS record, the step names that first record and the next hop
  goes to that address.
\<close>

theorem Trace_step_names_resolving_NS:
  assumes ex: "Exchange net w \<lparr>qname = zone, qtype = TypeNS, RecursionDesired = False\<rparr>
                 (cur @ '':53'') = (Some resp, w1)"
  shows "((filter is_NS (nsRecords resp) = []
            \<and> trace_zone net zone (steps, cur, w) = (steps, cur, w1))
       \<or> (\<exists>pre hdr ns post wk.
             nsRecords resp = pre @ NS hdr ns # post
           \<and> fst (trace_zone net zone (steps, cur, w)) = emit_step zone ns steps
           \<and> fst (snd (trace_zone net zone (steps, cur, w))) =
               (if ns_address net (Extra resp) wk ns \<noteq> []
                then ns_address net (Extra resp) wk ns else cur)
           \<and> list_all (unresolved net (Extra resp)) pre
           \<and> (ns_address net (Extra resp) wk ns = [] \<longrightarrow> filter is_NS post = [])))
     \<and> (filter is_NS (nsRecords resp) = NS hdr1 ns1 # rest
         \<and> ns_address net (Extra resp) w1 ns1 \<noteq> [] \<longrightarrow>
           fst (trace_zone net zone (steps, cur, w)) = emit_step zone ns1 steps
         \<and> fst (snd (trace_zone net zone (steps, cur, w))) =
             ns_address net (Extra resp) w1 ns1)"
proof -
  obtain nx sn w2 where
    loop: "ns_loop net (Extra resp) (nsRecords resp) ([], [], w1) = (nx, sn, w2)"
    by (cases "ns_loop net (Extra resp) (nsRecords resp) ([], [], w1)") auto
  have tz: "trace_zone net zone (steps, cur, w) =
     (if sn \<noteq> [] then steps @ [\<lparr>Zone = zone, Server = sn\<rparr>] else steps,
      if nx \<noteq> [] then nx else cur, w2)"
    by (rule trace_zone_resp[OF ex loop])
  from ns_loop_pick[OF loop]
  have general: "(filter is_NS (nsRecords resp) = []
            \<and> trace_zone net zone (steps, cur, w) = (steps, cur, w1))
       \<or> (\<exists>pre hdr ns post wk.
             nsRecords resp = pre @ NS hdr ns # post
           \<and> fst (trace_zone net zone (steps, cur, w)) = emit_step zone ns steps
           \<and> fst (snd (trace_zone net zone (steps, cur, w))) =
               (if ns_address net (Extra resp) wk ns \<noteq> []
                then ns_address net (Extra resp) wk ns else cur)
           \<and> list_all (unresolved net (Extra resp)) pre
           \<and> (ns_address net (Extra resp) wk ns = [] \<longrightarrow> filter is_NS post = []))"
  proof
    assume "filter is_NS (nsRecords resp) = [] \<and> (nx, sn, w2) = ([], [], w1)"
    then show ?thesis using tz by simp
  next
    assume "\<exists>pre hdr ns post sn1 w1.
         nsRecords resp = pre @ NS hdr ns # post
       \<and> (nx, sn, w2) = ns_step net (Extra resp) ns ([], sn1, w1)
       \<and> (nx = [] \<longrightarrow> filter is_NS post = [])
       \<and> (\<forall>rr \<in> set pre. unresolved net (Extra resp) rr)"
    then obtain pre hdr t post sn1 wk where
      p: "nsRecords resp = pre @ NS hdr t # post"
         "(nx, sn, w2) = ns_step net (Extra resp) t ([], sn1, wk)"
         "nx = [] \<longrightarrow> filter is_NS post = []"
         "\<forall>rr \<in> set pre. unresolved net (Extra resp) rr"
      by blast
    have nx: "nx = ns_address net (Extra resp) wk t"
      using ns_step_address(1)[of net "Extra resp" t sn1 wk] p(2) by (metis fst_conv)
    have sn: "sn = TrimSuffix t ''.''"
      using ns_step_address(2)[of net "Extra resp" t sn1 wk] p(2) by (metis fst_conv snd_conv)
    have "fst (trace_zone net zone (steps, cur, w)) = emit_step zone t steps"
      using tz sn by (simp add: emit_step_def)
    moreover have "fst (snd (trace_zone net zone (steps, cur, w))) =
               (if ns_address net (Extra resp) wk t \<noteq> []
                then ns_address net (Extra resp) wk t else cur)"
      using tz nx by simp
    moreover have "list_all (unresolved net (Extra resp)) pre"
      using p(4) by (simp add: list_all_iff)
    moreover have "ns_address net (Extra resp) wk t = [] \<longrightarrow> filter is_NS post = []"
      using p(3) nx by simp
    ultimately show ?thesis using p(1)
      by (intro disjI2 exI[of _ pre] exI[of _ hdr] exI[of _ t] exI[of _ post] exI[of _ wk])
         blast
  qed
  have first: "filter is_NS (nsRecords resp) = NS hdr1 ns1 # rest
         \<and> ns_address net (Extra resp) w1 ns1 \<noteq> [] \<longrightarrow>
           fst (trace_zone net zone (steps, cur, w)) = emit_step zone ns1 steps
         \<and> fst (snd (trace_zone net zone (steps, cur, w))) =
             ns_address net (Extra resp) w1 ns1"
  proof
    assume a: "filter is_NS (nsRecords resp) = NS hdr1 ns1 # rest
         \<and> ns_address net (Extra resp) w1 ns1 \<noteq> []"
    then have "fst (ns_step net (Extra resp) ns1 ([], [], w1)) \<noteq> []"
      by (simp add: ns_step_address)
    with a have "ns_loop net (Extra resp) (nsRecords resp) ([], [], w1)
                 = ns_step net (Extra resp) ns1 ([], [], w1)"
      by (intro ns_loop_first) auto
    with loop have e: "(nx, sn, w2) = ns_step net (Extra resp) ns1 ([], [], w1)" by simp
    have nx: "nx = ns_address net (Extra resp) w1 ns1"
      using ns_step_address(1)[of net "Extra resp" ns1 "[]" w1] e by (metis fst_conv)
    have sn: "sn = TrimSuffix ns1 ''.''"
      using ns_step_address(2)[of net "Extra resp" ns1 "[]" w1] e by (metis fst_conv snd_conv)
    show "fst (trace_zone net zone (steps, cur, w)) = emit_step zone ns1 steps
         \<and> fst (snd (trace_zone net zone (steps, cur, w))) =
             ns_address net (Extra resp) w1 ns1"
      using tz nx sn a by (simp add: emit_step_def)
  qed
  from general first show ?thesis by (rule conjI)
qed

theorem Trace_step_names_resolving_NS_witness:
  "Exchange (scripted_net hosts_nine no_parse) [Some msg_two_ns]
     \<lparr>qname = ''x.'', qtype = TypeNS, RecursionDesired = False\<rparr> (''198.41.0.4'' @ '':53'')
     = (Some msg_two_ns, [])
   \<and> filter is_NS (nsRecords msg_two_ns) =
       [NS (rr_hdr ''x.'' TypeNS) ''ns1.x.'', NS (rr_hdr ''x.'' TypeNS) ''ns2.x.'']
   \<and> ns_address (scripted_net hosts_nine no_parse) (Extra msg_two_ns) [] ''ns1.x.'' = ''9.9.9.9''
   \<and> fst (trace_zone (scripted_net hosts_nine no_parse) ''x.''
            ([], ''198.41.0.4'', [Some msg_two_ns])) = [\<lparr>Zone = ''x.'', Server = ''ns1.x''\<rparr>]
   \<and> fst (snd (trace_zone (scripted_net hosts_nine no_parse) ''x.''
                 ([], ''198.41.0.4'', [Some msg_two_ns]))) = ''9.9.9.9''"
proof -
  have ex: "Exchange (scripted_net hosts_nine no_parse) [Some msg_two_ns]
     \<lparr>qname = ''x.'', qtype = TypeNS, RecursionDesired = False\<rparr> (''198.41.0.4'' @ '':53'')
     = (Some msg_two_ns, [])"
    by (simp add: scripted_net_def)
  have ns: "filter is_NS (nsRecords msg_two_ns) =
       NS (rr_hdr ''x.'' TypeNS) ''ns1.x.'' # [NS (rr_hdr ''x.'' TypeNS) ''ns2.x.'']"
    by (simp add: nsRecords_def msg_two_ns_def)
  have addr: "ns_address (scripted_net hosts_nine no_parse) (Extra msg_two_ns) [] ''ns1.x.''
                = ''9.9.9.9''"
    by (simp add: ns_address_def msg_two_ns_def scripted_net_def hosts_nine_def
        first_address_def)
  have em: "emit_step ''x.'' ''ns1.x.'' [] = [\<lparr>Zone = ''x.'', Server = ''ns1.x''\<rparr>]"
    by (simp add: emit_step_def TrimSuffix_def HasSuffix_def)
  from Trace_step_names_resolving_NS[OF ex, where steps = "[]"
      and ?hdr1.0 = "rr_hdr ''x.'' TypeNS" and ?ns1.0 = "''ns1.x.''"
      and rest = "[NS (rr_hdr ''x.'' TypeNS) ''ns2.x.'']"]
  have "fst (trace_zone (scripted_net hosts_nine no_parse) ''x.''
            ([], ''198.41.0.4'', [Some msg_two_ns])) = emit_step ''x.'' ''ns1.x.'' []
      \<and> fst (snd (trace_zone (scripted_net hosts_nine no_parse) ''x.''
                 ([], ''198.41.0.4'', [Some msg_two_ns]))) =
          ns_address (scripted_net hosts_nine no_parse) (Extra msg_two_ns) [] ''ns1.x.''"
    using ns addr by simp
  with ex ns addr em show ?thesis by simp
qed

text \<open>
  Claim C2 as stated fails: with two NS records, no glue and no address from the system,
  the step names the second record, not the first.
\<close>

theorem Trace_first_NS_counterexample:
  "fst (Trace (scripted_net no_hosts no_parse) [Some msg_two_ns] ''x'') =
     [\<lparr>Zone = ''.'', Server = ''a.root-servers.net''\<rparr>, \<lparr>Zone = ''x.'', Server = ''ns2.x''\<rparr>]
   \<and> ns_target (hd (filter is_NS (nsRecords msg_two_ns))) = ''ns1.x.''"
  by code_simp


subsection \<open>Delegation trace: the section searched\<close>

text \<open>
  Claim C3, as the code has it. The section searched for NS records is chosen by
  emptiness, not by what it holds: it is the answer section whenever the answer section
  holds any record, and the authority section only when the answer section is empty. So
  an answer section that holds NS records is the one searched, and an empty answer
  section gives way to the authority section; but a hop whose answer section holds
  records none of which is an NS record emits no step and leaves the server as it was,
  whatever the authority section holds.
\<close>

theorem Trace_section_by_emptiness:
  "nsRecords resp = (if Answer resp \<noteq> [] then Answer resp else Ns resp)
   \<and> (filter is_NS (Answer resp) \<noteq> [] \<longrightarrow> nsRecords resp = Answer resp)
   \<and> (Answer resp = [] \<longrightarrow> nsRecords resp = Ns resp)
   \<and> (Exchange net w \<lparr>qname = zone, qtype = TypeNS, RecursionDesired = False\<rparr>
         (cur @ '':53'') = (Some resp, w1)
        \<and> Answer resp \<noteq> [] \<and> filter is_NS (Answer resp) = [] \<longrightarrow>
          trace_zone net zone (steps, cur, w) = (steps, cur, w1))"
proof -
  have a: "nsRecords resp = (if Answer resp \<noteq> [] then Answer resp else Ns resp)"
    by (simp add: nsRecords_def)
  have b: "filter is_NS (Answer resp) \<noteq> [] \<longrightarrow> nsRecords resp = Answer resp"
    by (auto simp: nsRecords_def)
  have c: "Answer resp = [] \<longrightarrow> nsRecords resp = Ns resp"
    by (simp add: nsRecords_def)
  have d: "Exchange net w \<lparr>qname = zone, qtype = TypeNS, RecursionDesired = False\<rparr>
         (cur @ '':53'') = (Some resp, w1)
        \<and> Answer resp \<noteq> [] \<and> filter is_NS (Answer resp) = [] \<longrightarrow>
          trace_zone net zone (steps, cur, w) = (steps, cur, w1)"
  proof
    assume h: "Exchange net w \<lparr>qname = zone, qtype = TypeNS, RecursionDesired = False\<rparr>
         (cur @ '':53'') = (Some resp, w1)
        \<and> Answer resp \<noteq> [] \<and> filter is_NS (Answer resp) = []"
    then have "filter is_NS (nsRecords resp) = []" by (simp add: nsRecords_def)
    then have "ns_loop net (Extra resp) (nsRecords resp) ([], [], w1) = ([], [], w1)"
      by (rule ns_loop_no_NS)
    from trace_zone_resp[OF _ this] h
    show "trace_zone net zone (steps, cur, w) = (steps, cur, w1)" by simp
  qed
  from a b c d show ?thesis by blast
qed

theorem Trace_section_by_emptiness_witness:
  "filter is_NS (Answer msg_answer_ns) \<noteq> []
   \<and> nsRecords msg_answer_ns = Answer msg_answer_ns
   \<and> Answer msg_referral = []
   \<and> nsRecords msg_referral = Ns msg_referral
   \<and> Exchange (scripted_net hosts_nine no_parse) [Some msg_cname_answer]
        \<lparr>qname = ''x.'', qtype = TypeNS, RecursionDesired = False\<rparr> (''198.41.0.4'' @ '':53'')
        = (Some msg_cname_answer, [])
   \<and> Answer msg_cname_answer \<noteq> []
   \<and> filter is_NS (Answer msg_cname_answer) = []
   \<and> trace_zone (scripted_net hosts_nine no_parse) ''x.''
        ([], ''198.41.0.4'', [Some msg_cname_answer]) = ([], ''198.41.0.4'', [])"
proof -
  have h1: "filter is_NS (Answer msg_answer_ns) \<noteq> []"
    by (simp add: msg_answer_ns_def)
  have h2: "Answer msg_referral = []"
    by (simp add: msg_referral_def)
  have h3: "Exchange (scripted_net hosts_nine no_parse) [Some msg_cname_answer]
        \<lparr>qname = ''x.'', qtype = TypeNS, RecursionDesired = False\<rparr> (''198.41.0.4'' @ '':53'')
        = (Some msg_cname_answer, [])
     \<and> Answer msg_cname_answer \<noteq> []
     \<and> filter is_NS (Answer msg_cname_answer) = []"
    by (simp add: scripted_net_def msg_cname_answer_def)
  have c1: "nsRecords msg_answer_ns = Answer msg_answer_ns"
    by (rule Trace_section_by_emptiness
        [THEN conjunct2, THEN conjunct1, THEN mp, OF h1])
  have c2: "nsRecords msg_referral = Ns msg_referral"
    by (rule Trace_section_by_emptiness
        [THEN conjunct2, THEN conjunct2, THEN conjunct1, THEN mp, OF h2])
  have c3: "trace_zone (scripted_net hosts_nine no_parse) ''x.''
        ([], ''198.41.0.4'', [Some msg_cname_answer]) = ([], ''198.41.0.4'', [])"
    by (rule Trace_section_by_emptiness
        [THEN conjunct2, THEN conjunct2, THEN conjunct2, THEN mp, OF h3])
  from h1 h2 h3 c1 c2 c3 show ?thesis by blast
qed

text \<open>
  Claim C3 as stated fails: the answer section holds a CNAME record and no NS record,
  the authority section holds an NS record (with glue), and yet no NS record is used:
  the trace of \<open>x\<close> has the root step only.
\<close>

theorem Trace_authority_fallback_counterexample:
  "filter is_NS (Answer msg_cname_answer) = []
   \<and> filter is_NS (Ns msg_cname_answer) = [NS (rr_hdr ''x.'' TypeNS) ''ns1.x.'']
   \<and> filter is_NS (nsRecords msg_cname_answer) = []
   \<and> fst (Trace (scripted_net hosts_nine no_parse) [Some msg_cname_answer] ''x'') =
       [\<lparr>Zone = ''.'', Server = ''a.root-servers.net''\<rparr>]"
  by code_simp


subsection \<open>Delegation trace: how many steps, and which\<close>




subsection \<open>ASN attribution: the name of the origin query\<close>

text \<open>
  Claim C6. For an IPv4 literal \<open>a.b.c.d\<close> (four parts with no dot and no colon in
  them) the origin query is named \<open>d.c.b.a.origin.asn.cymru.com.\<close>. For a literal with
  a colon that \<open>net.ParseIP\<close> accepts, with sixteen-byte form \<open>full\<close>, the name is 32
  components of one hexadecimal digit each, joined by dots and followed by
  \<open>.origin6.asn.cymru.com.\<close>; the components are the 32 hexadecimal digits of the
  address read backwards, so the low four bits of the last byte come first and the
  high four bits of the first byte last.
\<close>

theorem LookupASN_query_name:
  "(CHR ''.'' \<notin> set (a @ b @ c @ d) \<and> CHR '':'' \<notin> set (a @ b @ c @ d) \<longrightarrow>
      asn_query net (a @ ''.'' @ b @ ''.'' @ c @ ''.'' @ d)
        = Some (d @ ''.'' @ c @ ''.'' @ b @ ''.'' @ a @ ''.origin.asn.cymru.com.''))
   \<and> (Contains ip '':'' \<and> ParseIP net ip = Some addr \<and> To16 addr = Some full \<longrightarrow>
        (\<exists>nibbles.
            asn_query net ip = Some (Join nibbles ''.'' @ ''.origin6.asn.cymru.com.'')
          \<and> length nibbles = 32
          \<and> list_all (\<lambda>n. length n = 1) nibbles
          \<and> nibbles = rev (concat (map (\<lambda>b. [[digit_char (unat b div 16)],
                                              [digit_char (unat b mod 16)]]) full))))"
proof (intro conjI impI)
  assume h: "CHR ''.'' \<notin> set (a @ b @ c @ d) \<and> CHR '':'' \<notin> set (a @ b @ c @ d)"
  then have nc: "\<not> Contains (a @ ''.'' @ b @ ''.'' @ c @ ''.'' @ d) '':''"
    by (simp add: Contains_char)
  have sp: "Split (a @ CHR ''.'' # b @ CHR ''.'' # c @ CHR ''.'' # d) ''.'' = [a, b, c, d]"
    using h by (intro Split_four) simp_all
  show "asn_query net (a @ ''.'' @ b @ ''.'' @ c @ ''.'' @ d)
        = Some (d @ ''.'' @ c @ ''.'' @ b @ ''.'' @ a @ ''.origin.asn.cymru.com.'')"
    using nc sp by (simp add: asn_query_def Let_def)
next
  assume h: "Contains ip '':'' \<and> ParseIP net ip = Some addr \<and> To16 addr = Some full"
  let ?n = "asn_nibbles full"
  have q: "asn_query net ip = Some (Join ?n ''.'' @ ''.origin6.asn.cymru.com.'')"
    using h by (simp add: asn_query_def)
  have len: "length ?n = 32"
    using To16_length[of addr full] h by (simp add: asn_nibbles_rev length_concat_pairs)
  have one: "list_all (\<lambda>n. length n = 1) ?n"
    by (simp add: asn_nibbles_rev list_all_iff)
  from q len one asn_nibbles_rev[of full]
  show "\<exists>nibbles.
            asn_query net ip = Some (Join nibbles ''.'' @ ''.origin6.asn.cymru.com.'')
          \<and> length nibbles = 32
          \<and> list_all (\<lambda>n. length n = 1) nibbles
          \<and> nibbles = rev (concat (map (\<lambda>b. [[digit_char (unat b div 16)],
                                              [digit_char (unat b mod 16)]]) full))"
    by (intro exI[of _ ?n]) simp
qed

theorem LookupASN_query_name_witness:
  "asn_query (scripted_net no_hosts parse_one) ''192.0.2.1''
     = Some ''1.2.0.192.origin.asn.cymru.com.''
   \<and> Contains ''2001:db8::1'' '':''
   \<and> ParseIP (scripted_net no_hosts parse_one) ''2001:db8::1'' = Some addr_2001_db8_1
   \<and> To16 addr_2001_db8_1 = Some addr_2001_db8_1
   \<and> asn_query (scripted_net no_hosts parse_one) ''2001:db8::1''
     = Some ''1.0.0.0.0.0.0.0.0.0.0.0.0.0.0.0.0.0.0.0.0.0.0.0.8.b.d.0.1.0.0.2.origin6.asn.cymru.com.''"
proof -
  note T = LookupASN_query_name
    [where net = "scripted_net no_hosts parse_one" and a = "''192''" and b = "''0''"
       and c = "''2''" and d = "''1''" and ip = "''2001:db8::1''"
       and addr = addr_2001_db8_1 and full = addr_2001_db8_1]
  have h4: "CHR ''.'' \<notin> set (''192'' @ ''0'' @ ''2'' @ ''1'')
          \<and> CHR '':'' \<notin> set (''192'' @ ''0'' @ ''2'' @ ''1'')"
    by simp
  have h6: "Contains ''2001:db8::1'' '':''
          \<and> ParseIP (scripted_net no_hosts parse_one) ''2001:db8::1'' = Some addr_2001_db8_1
          \<and> To16 addr_2001_db8_1 = Some addr_2001_db8_1"
    by (simp add: Contains_char scripted_net_def parse_one_def To16_def addr_2001_db8_1_def)
  from T h4 have v4: "asn_query (scripted_net no_hosts parse_one) ''192.0.2.1''
     = Some ''1.2.0.192.origin.asn.cymru.com.''" by simp
  from T h6 obtain nibbles where
    n: "asn_query (scripted_net no_hosts parse_one) ''2001:db8::1''
          = Some (Join nibbles ''.'' @ ''.origin6.asn.cymru.com.'')"
       "nibbles = rev (concat (map (\<lambda>b. [[digit_char (unat b div 16)],
                                          [digit_char (unat b mod 16)]]) addr_2001_db8_1))"
    by blast
  have "nibbles = [''1'', ''0'', ''0'', ''0'', ''0'', ''0'', ''0'', ''0'', ''0'', ''0'', ''0'',
      ''0'', ''0'', ''0'', ''0'', ''0'', ''0'', ''0'', ''0'', ''0'', ''0'', ''0'', ''0'', ''0'',
      ''8'', ''b'', ''d'', ''0'', ''1'', ''0'', ''0'', ''2'']"
    unfolding n(2) by (simp add: addr_2001_db8_1_def digit_char_def)
  with n(1) have v6: "asn_query (scripted_net no_hosts parse_one) ''2001:db8::1''
     = Some ''1.0.0.0.0.0.0.0.0.0.0.0.0.0.0.0.0.0.0.0.0.0.0.0.8.b.d.0.1.0.0.2.origin6.asn.cymru.com.''"
    by simp
  from v4 h6 v6 show ?thesis by simp
qed


subsection \<open>ASN attribution: when the result is absent\<close>

text \<open>
  Claim C7, as the code has it. \<open>LookupASN\<close> returns nothing exactly when no origin
  query can be named for the input, or the origin query gives no text: its reply is a
  transport error, has no answer, has a first answer that is not a TXT record, or has a
  first answer that is a TXT record without strings. No query can be named when the
  input holds a colon and does not parse to an address, or holds no colon and does not
  have exactly three dots; then nothing is sent at all. When the origin query gives a
  text and the AS name query gives none (in the same four ways), the result is present,
  with \<open>AS\<close> and the number as its ASN and with an empty organization.
\<close>

theorem LookupASN_absent_iff:
  "(fst (LookupASN net w ip) = None \<longleftrightarrow>
      asn_query net ip = None
    \<or> (\<exists>query. asn_query net ip = Some query
          \<and> no_txt (fst (Exchange net w
                 \<lparr>qname = query, qtype = TypeTXT, RecursionDesired = True\<rparr> ''8.8.8.8:53''))))
   \<and> (asn_query net ip = None \<longleftrightarrow>
        (if CHR '':'' \<in> set ip
         then (case ParseIP net ip of None \<Rightarrow> True | Some addr \<Rightarrow> To16 addr = None)
         else count_list ip CHR ''.'' \<noteq> 3))
   \<and> (asn_query net ip = None \<longrightarrow> LookupASN net w ip = (None, w))
   \<and> (no_txt reply \<longleftrightarrow>
        reply = None
      \<or> (\<exists>resp. reply = Some resp
            \<and> (Answer resp = [] \<or> \<not> is_TXT (hd (Answer resp))
                \<or> txt_strings (hd (Answer resp)) = [])))
   \<and> (asn_query net ip = Some query
        \<and> Exchange net w \<lparr>qname = query, qtype = TypeTXT, RecursionDesired = True\<rparr>
            ''8.8.8.8:53'' = (Some resp, w1)
        \<and> first_txt resp = Some t
        \<and> no_txt (fst (Exchange net w1
              \<lparr>qname = ''AS'' @ TrimSpace (before_bar t) @ ''.asn.cymru.com.'',
                qtype = TypeTXT, RecursionDesired = True\<rparr> ''8.8.8.8:53'')) \<longrightarrow>
          fst (LookupASN net w ip) = Some \<lparr>ASN = ''AS'' @ TrimSpace (before_bar t), Org = []\<rparr>)"
proof -
  have a: "fst (LookupASN net w ip) = None \<longleftrightarrow>
      asn_query net ip = None
    \<or> (\<exists>query. asn_query net ip = Some query
          \<and> no_txt (fst (Exchange net w
                 \<lparr>qname = query, qtype = TypeTXT, RecursionDesired = True\<rparr> ''8.8.8.8:53'')))"
    by (auto simp: LookupASN_cases no_txt_def split: option.splits prod.splits)
  have c: "asn_query net ip = None \<longrightarrow> LookupASN net w ip = (None, w)"
    by (simp add: LookupASN_cases)
  have d: "asn_query net ip = Some query
        \<and> Exchange net w \<lparr>qname = query, qtype = TypeTXT, RecursionDesired = True\<rparr>
            ''8.8.8.8:53'' = (Some resp, w1)
        \<and> first_txt resp = Some t
        \<and> no_txt (fst (Exchange net w1
              \<lparr>qname = ''AS'' @ TrimSpace (before_bar t) @ ''.asn.cymru.com.'',
                qtype = TypeTXT, RecursionDesired = True\<rparr> ''8.8.8.8:53'')) \<longrightarrow>
          fst (LookupASN net w ip) = Some \<lparr>ASN = ''AS'' @ TrimSpace (before_bar t), Org = []\<rparr>"
    by (simp add: LookupASN_cases lookupASName_no_txt)
  from a asn_query_None_iff[of net ip] c no_txt_iff[of reply] d show ?thesis
    by (intro conjI)
qed

theorem LookupASN_absent_iff_witness:
  "asn_query (scripted_net no_hosts no_parse) ''1.2.3.4''
     = Some ''4.3.2.1.origin.asn.cymru.com.''
   \<and> Exchange (scripted_net no_hosts no_parse) [Some msg_origin, None]
       \<lparr>qname = ''4.3.2.1.origin.asn.cymru.com.'', qtype = TypeTXT, RecursionDesired = True\<rparr>
       ''8.8.8.8:53'' = (Some msg_origin, [None])
   \<and> first_txt msg_origin = Some ''13335 | 1.2.3.0/24 | AU | apnic | 2011-08-11''
   \<and> no_txt (fst (Exchange (scripted_net no_hosts no_parse) [None]
         \<lparr>qname = ''AS13335.asn.cymru.com.'', qtype = TypeTXT, RecursionDesired = True\<rparr>
         ''8.8.8.8:53''))
   \<and> fst (LookupASN (scripted_net no_hosts no_parse) [Some msg_origin, None] ''1.2.3.4'')
       = Some \<lparr>ASN = ''AS13335'', Org = []\<rparr>
   \<and> asn_query (scripted_net no_hosts no_parse) ''1.2.3'' = None
   \<and> LookupASN (scripted_net no_hosts no_parse) [Some msg_origin] ''1.2.3''
       = (None, [Some msg_origin])"
proof -
  let ?N = "scripted_net no_hosts no_parse"
  let ?t = "''13335 | 1.2.3.0/24 | AU | apnic | 2011-08-11''"
  have q: "asn_query ?N ''1.2.3.4'' = Some ''4.3.2.1.origin.asn.cymru.com.''"
    by code_simp
  have ex: "Exchange ?N [Some msg_origin, None]
       \<lparr>qname = ''4.3.2.1.origin.asn.cymru.com.'', qtype = TypeTXT, RecursionDesired = True\<rparr>
       ''8.8.8.8:53'' = (Some msg_origin, [None])"
    by (simp add: scripted_net_def)
  have ft: "first_txt msg_origin = Some ?t"
    by (simp add: first_txt_def msg_origin_def)
  have asn: "TrimSpace (before_bar ?t) = ''13335''"
    by code_simp
  have nt: "no_txt (fst (Exchange ?N [None]
         \<lparr>qname = ''AS'' @ TrimSpace (before_bar ?t) @ ''.asn.cymru.com.'',
           qtype = TypeTXT, RecursionDesired = True\<rparr> ''8.8.8.8:53''))"
    by (simp add: scripted_net_def no_txt_def)
  have none: "asn_query ?N ''1.2.3'' = None"
    by code_simp
  from q ex ft nt
  have "fst (LookupASN ?N [Some msg_origin, None] ''1.2.3.4'')
          = Some \<lparr>ASN = ''AS'' @ TrimSpace (before_bar ?t), Org = []\<rparr>"
    by (intro LookupASN_absent_iff
        [THEN conjunct2, THEN conjunct2, THEN conjunct2, THEN conjunct2, THEN mp]) blast
  then have r1: "fst (LookupASN ?N [Some msg_origin, None] ''1.2.3.4'')
          = Some \<lparr>ASN = ''AS13335'', Org = []\<rparr>"
    by (simp add: asn)
  from none have r2: "LookupASN ?N [Some msg_origin] ''1.2.3'' = (None, [Some msg_origin])"
    by (rule LookupASN_absent_iff
        [THEN conjunct2, THEN conjunct2, THEN conjunct1, THEN mp])
  from nt have nt': "no_txt (fst (Exchange ?N [None]
         \<lparr>qname = ''AS13335.asn.cymru.com.'', qtype = TypeTXT, RecursionDesired = True\<rparr>
         ''8.8.8.8:53''))"
    by (simp add: scripted_net_def no_txt_def)
  from q ex ft nt' r1 none r2 show ?thesis by (intro conjI)
qed

text \<open>
  Claim C7 as stated fails: the origin query for \<open>1.2.3.4\<close> is answered, without error,
  by a first answer that is a TXT record, and the result is absent all the same, because
  the record holds no string. And for the input \<open>1.2.3\<close> the result is absent though no
  query was sent: the world is untouched.
\<close>

theorem LookupASN_absent_counterexample:
  "fst (LookupASN (scripted_net no_hosts no_parse) [Some msg_empty_txt] ''1.2.3.4'') = None
   \<and> fst (Exchange (scripted_net no_hosts no_parse) [Some msg_empty_txt]
            \<lparr>qname = ''4.3.2.1.origin.asn.cymru.com.'', qtype = TypeTXT,
              RecursionDesired = True\<rparr> ''8.8.8.8:53'') = Some msg_empty_txt
   \<and> Answer msg_empty_txt \<noteq> []
   \<and> is_TXT (hd (Answer msg_empty_txt))
   \<and> asn_query (scripted_net no_hosts no_parse) ''1.2.3.4''
       = Some ''4.3.2.1.origin.asn.cymru.com.''
   \<and> LookupASN (scripted_net no_hosts no_parse) [Some msg_origin] ''1.2.3''
       = (None, [Some msg_origin])"
  by code_simp

subsection \<open>ASN attribution: the form of the ASN\<close>

text \<open>
  Claim C8, as the code has it. A result that is present comes from an origin answer
  with a first string \<open>t\<close>, and its ASN is \<open>AS\<close> followed by the text of \<open>t\<close> before
  the first \<open>" | "\<close>, with the white space at both ends cut off. Nothing checks that
  text: the ASN is \<open>AS\<close> and decimal digits exactly when that text is one or more
  decimal digits.
\<close>

theorem LookupASN_asn_field:
  "fst (LookupASN net w ip) = Some info \<longrightarrow>
     (\<exists>query resp t.
         asn_query net ip = Some query
       \<and> fst (Exchange net w \<lparr>qname = query, qtype = TypeTXT, RecursionDesired = True\<rparr>
                ''8.8.8.8:53'') = Some resp
       \<and> first_txt resp = Some t
       \<and> ASN info = ''AS'' @ TrimSpace (before_bar t)
       \<and> (well_formed_asn (ASN info) \<longleftrightarrow> all_digits (TrimSpace (before_bar t))))"
proof
  assume h: "fst (LookupASN net w ip) = Some info"
  then obtain query where q: "asn_query net ip = Some query"
    by (cases "asn_query net ip") (auto simp: LookupASN_cases)
  obtain reply w1 where ex: "Exchange net w
      \<lparr>qname = query, qtype = TypeTXT, RecursionDesired = True\<rparr> ''8.8.8.8:53'' = (reply, w1)"
    by (cases "Exchange net w
      \<lparr>qname = query, qtype = TypeTXT, RecursionDesired = True\<rparr> ''8.8.8.8:53''") auto
  from h q ex obtain resp where r: "reply = Some resp"
    by (cases reply) (auto simp: LookupASN_cases)
  from h q ex r obtain t where t: "first_txt resp = Some t"
    by (cases "first_txt resp") (auto simp: LookupASN_cases)
  from h q ex r t have "info = fst (lookupASName net w1 (TrimSpace (before_bar t)))"
    by (simp add: LookupASN_cases)
  then have asn: "ASN info = ''AS'' @ TrimSpace (before_bar t)"
    by (simp add: lookupASName_ASN)
  then have "well_formed_asn (ASN info) \<longleftrightarrow> all_digits (TrimSpace (before_bar t))"
    by (simp add: well_formed_asn_def)
  with q ex r t asn show "\<exists>query resp t.
         asn_query net ip = Some query
       \<and> fst (Exchange net w \<lparr>qname = query, qtype = TypeTXT, RecursionDesired = True\<rparr>
                ''8.8.8.8:53'') = Some resp
       \<and> first_txt resp = Some t
       \<and> ASN info = ''AS'' @ TrimSpace (before_bar t)
       \<and> (well_formed_asn (ASN info) \<longleftrightarrow> all_digits (TrimSpace (before_bar t)))"
    by (intro exI[of _ query] exI[of _ resp] exI[of _ t]) simp
qed

theorem LookupASN_asn_field_witness:
  "fst (LookupASN (scripted_net no_hosts no_parse) [Some msg_origin, Some msg_as_name]
          ''1.2.3.4'') = Some \<lparr>ASN = ''AS13335'', Org = ''CLOUDFLARENET, US''\<rparr>
   \<and> (\<exists>query resp t.
         asn_query (scripted_net no_hosts no_parse) ''1.2.3.4'' = Some query
       \<and> fst (Exchange (scripted_net no_hosts no_parse) [Some msg_origin, Some msg_as_name]
                \<lparr>qname = query, qtype = TypeTXT, RecursionDesired = True\<rparr>
                ''8.8.8.8:53'') = Some resp
       \<and> first_txt resp = Some t
       \<and> ''AS13335'' = ''AS'' @ TrimSpace (before_bar t)
       \<and> (well_formed_asn ''AS13335'' \<longleftrightarrow> all_digits (TrimSpace (before_bar t))))
   \<and> well_formed_asn ''AS13335''"
proof -
  have h: "fst (LookupASN (scripted_net no_hosts no_parse) [Some msg_origin, Some msg_as_name]
          ''1.2.3.4'') = Some \<lparr>ASN = ''AS13335'', Org = ''CLOUDFLARENET, US''\<rparr>"
    by code_simp
  have wf: "well_formed_asn ''AS13335''"
    by code_simp
  from LookupASN_asn_field[THEN mp, OF h] h wf show ?thesis by simp
qed

text \<open>
  Claim C8 as stated fails: for a prefix announced by two systems the origin answer
  starts with two numbers, and the ASN returned is \<open>AS23028 7018\<close>.
\<close>

theorem LookupASN_well_formed_counterexample:
  "fst (LookupASN (scripted_net no_hosts no_parse) [Some msg_two_origins] ''1.2.3.4'')
     = Some \<lparr>ASN = ''AS23028 7018'', Org = []\<rparr>
   \<and> \<not> well_formed_asn ''AS23028 7018''"
  by code_simp


subsection \<open>Record aggregation: TXT values\<close>

text \<open>
  Claim C9. \<open>queryTXT\<close> gives one value for each TXT record of the answer, in the order
  of the answer: the strings of the record put together, one after the other. A value
  longer than 60 bytes is replaced by its first 57 bytes followed by three dots, 60 bytes
  in all; a value of at most 60 bytes is kept as it is.
\<close>

theorem queryTXT_truncates:
  "(Exchange net w \<lparr>qname = domain, qtype = TypeTXT, RecursionDesired = True\<rparr>
       ''8.8.8.8:53'' = (Some resp, w1) \<longrightarrow>
      fst (queryTXT net w domain)
        = map (\<lambda>rr. txt_value (txt_strings rr)) (filter is_TXT (Answer resp)))
   \<and> (length (concat txt) > 60 \<longrightarrow>
        txt_value txt = take 57 (concat txt) @ ''...'' \<and> length (txt_value txt) = 60)
   \<and> (length (concat txt) \<le> 60 \<longrightarrow> txt_value txt = concat txt)"
  by (simp add: queryTXT_def resolverAddr_def collect_txt_map txt_value_long txt_value_short)

theorem queryTXT_truncates_witness:
  "Exchange (scripted_net no_hosts no_parse) [Some msg_txts]
      \<lparr>qname = ''x.'', qtype = TypeTXT, RecursionDesired = True\<rparr> ''8.8.8.8:53''
      = (Some msg_txts, [])
   \<and> fst (queryTXT (scripted_net no_hosts no_parse) [Some msg_txts] ''x.'')
      = [''0123456789012345678901234567890123456789abcdefghijklmnopq...'', ''v=spf1 -all'']
   \<and> length (concat [''0123456789012345678901234567890123456789'',
                      ''abcdefghijklmnopqrstuvwxyz'']) > 60
   \<and> txt_value [''0123456789012345678901234567890123456789'', ''abcdefghijklmnopqrstuvwxyz'']
      = ''0123456789012345678901234567890123456789abcdefghijklmnopq...''
   \<and> length (txt_value [''0123456789012345678901234567890123456789'',
                         ''abcdefghijklmnopqrstuvwxyz'']) = 60
   \<and> length (concat [''v=spf1 -all'']) \<le> 60
   \<and> txt_value [''v=spf1 -all''] = ''v=spf1 -all''"
proof -
  let ?long = "[''0123456789012345678901234567890123456789'', ''abcdefghijklmnopqrstuvwxyz'']"
  have ex: "Exchange (scripted_net no_hosts no_parse) [Some msg_txts]
      \<lparr>qname = ''x.'', qtype = TypeTXT, RecursionDesired = True\<rparr> ''8.8.8.8:53''
      = (Some msg_txts, [])"
    by (simp add: scripted_net_def)
  have long: "length (concat ?long) > 60" by simp
  have short: "length (concat [''v=spf1 -all'']) \<le> 60" by simp
  note T1 = queryTXT_truncates[where net = "scripted_net no_hosts no_parse"
      and w = "[Some msg_txts]" and domain = "''x.''" and resp = msg_txts and ?w1.0 = "[]"
      and ?txt = "[''0123456789012345678901234567890123456789'', ''abcdefghijklmnopqrstuvwxyz'']"]
  note T2 = queryTXT_truncates[where net = "scripted_net no_hosts no_parse"
      and w = "[Some msg_txts]" and domain = "''x.''" and resp = msg_txts and ?w1.0 = "[]"
      and ?txt = "[''v=spf1 -all'']"]
  from T1 ex
  have q: "fst (queryTXT (scripted_net no_hosts no_parse) [Some msg_txts] ''x.'')
      = map (\<lambda>rr. txt_value (txt_strings rr)) (filter is_TXT (Answer msg_txts))"
    by blast
  from T1 long
  have l: "txt_value ?long = take 57 (concat ?long) @ ''...'' \<and> length (txt_value ?long) = 60"
    by blast
  from T2 short
  have s: "txt_value [''v=spf1 -all''] = concat [''v=spf1 -all'']"
    by blast
  from l have l': "txt_value ?long = ''0123456789012345678901234567890123456789abcdefghijklmnopq...''"
    by simp
  from q l' s have q': "fst (queryTXT (scripted_net no_hosts no_parse) [Some msg_txts] ''x.'')
      = [''0123456789012345678901234567890123456789abcdefghijklmnopq...'', ''v=spf1 -all'']"
    by (simp add: msg_txts_def)
  from ex q' long l' l short s show ?thesis by simp
qed

subsection \<open>Record aggregation: the shared extractor\<close>

text \<open>
  Claim C10. The A, AAAA and CNAME fields of \<open>GetRecords\<close> all come from
  \<open>queryRecords\<close>, and what \<open>queryRecords\<close> keeps of an answer section does not depend
  on the type asked for: from every A and AAAA record its address, from every CNAME
  record its target without the final dot, in the order of the answer. So when the
  answer to the A question is a CNAME record followed by an A record, the A field is
  the target of the alias followed by the address.
\<close>

theorem GetRecords_shared_extractor:
  "(Exchange net w \<lparr>qname = d, qtype = qt, RecursionDesired = True\<rparr> ''8.8.8.8:53''
       = (Some resp, w1) \<longrightarrow>
      queryRecords net w d qt = (concat (map record_text (Answer resp)), w1))
   \<and> Records_A (fst (GetRecords net w domain))
       = fst (queryRecords net w (Fqdn domain) TypeA)
   \<and> (\<exists>w1. Records_AAAA (fst (GetRecords net w domain))
              = fst (queryRecords net w1 (Fqdn domain) TypeAAAA))
   \<and> (\<exists>w4. Records_CNAME (fst (GetRecords net w domain))
              = fst (queryRecords net w4 (Fqdn domain) TypeCNAME))
   \<and> (Exchange net w \<lparr>qname = Fqdn domain, qtype = TypeA, RecursionDesired = True\<rparr>
         ''8.8.8.8:53'' = (Some resp, w1)
        \<and> Answer resp = [CNAME hdr1 target, A hdr2 a] \<longrightarrow>
          Records_A (fst (GetRecords net w domain)) = [TrimSuffix target ''.'', IP_String a])"
proof -
  have ex: "Exchange net w \<lparr>qname = Fqdn domain, qtype = TypeA, RecursionDesired = True\<rparr>
         ''8.8.8.8:53'' = (Some resp, w1)
        \<and> Answer resp = [CNAME hdr1 target, A hdr2 a] \<longrightarrow>
          Records_A (fst (GetRecords net w domain)) = [TrimSuffix target ''.'', IP_String a]"
    by (simp add: GetRecords_fields(1) queryRecords_answer)
  have q: "Exchange net w \<lparr>qname = d, qtype = qt, RecursionDesired = True\<rparr> ''8.8.8.8:53''
       = (Some resp, w1) \<longrightarrow>
      queryRecords net w d qt = (concat (map record_text (Answer resp)), w1)"
    by (simp add: queryRecords_answer)
  from q GetRecords_fields[of net w domain] ex show ?thesis by (intro conjI)
qed

theorem GetRecords_shared_extractor_witness:
  "Exchange (scripted_net no_hosts no_parse) [Some msg_alias]
      \<lparr>qname = Fqdn ''www.x'', qtype = TypeA, RecursionDesired = True\<rparr> ''8.8.8.8:53''
      = (Some msg_alias, [])
   \<and> Answer msg_alias = [CNAME (rr_hdr ''www.x.'' TypeCNAME) ''x.'',
                          A (rr_hdr ''x.'' TypeA) [192, 0, 2, 1]]
   \<and> Records_A (fst (GetRecords (scripted_net no_hosts no_parse) [Some msg_alias] ''www.x''))
       = [''x'', ''192.0.2.1'']
   \<and> queryRecords (scripted_net no_hosts no_parse) [Some msg_alias] (Fqdn ''www.x'') TypeA
       = ([''x'', ''192.0.2.1''], [])"
proof -
  have h: "Exchange (scripted_net no_hosts no_parse) [Some msg_alias]
      \<lparr>qname = Fqdn ''www.x'', qtype = TypeA, RecursionDesired = True\<rparr> ''8.8.8.8:53''
      = (Some msg_alias, [])
     \<and> Answer msg_alias = [CNAME (rr_hdr ''www.x.'' TypeCNAME) ''x.'',
                          A (rr_hdr ''x.'' TypeA) [192, 0, 2, 1]]"
    by (simp add: scripted_net_def msg_alias_def)
  have t: "TrimSuffix ''x.'' ''.'' = ''x''" by code_simp
  have ip: "IP_String [192, 0, 2, 1] = ''192.0.2.1''" by code_simp
  note T = GetRecords_shared_extractor
    [where net = "scripted_net no_hosts no_parse" and w = "[Some msg_alias]"
       and domain = "''www.x''" and d = "Fqdn ''www.x''" and qt = TypeA
       and resp = msg_alias and ?w1.0 = "[]"
       and ?hdr1.0 = "rr_hdr ''www.x.'' TypeCNAME" and target = "''x.''"
       and ?hdr2.0 = "rr_hdr ''x.'' TypeA" and a = "[192, 0, 2, 1]"]
  from T h have a: "Records_A (fst (GetRecords (scripted_net no_hosts no_parse)
       [Some msg_alias] ''www.x'')) = [TrimSuffix ''x.'' ''.'', IP_String [192, 0, 2, 1]]"
    by blast
  from T h have q: "queryRecords (scripted_net no_hosts no_parse) [Some msg_alias]
        (Fqdn ''www.x'') TypeA = (concat (map record_text (Answer msg_alias)), [])"
    by blast
  from h a q show ?thesis by (simp add: t ip)
qed

end
